theory Spec2Isabelle
  imports Complex_Main "HOL-Library.Sublist"
begin

section \<open>Strings and regular expressions of the host language\<close>

text \<open>
  A JavaScript string is modelled by an Isabelle \<open>string\<close>, one \<open>char\<close> per UTF-16
  code unit; this covers the strings whose code units are below 256. A JavaScript
  number that holds a count is a \<open>nat\<close> or an \<open>int\<close>. A number that holds a score,
  a cost or a ratio is a rational: the model computes it exactly where the source
  rounds to a double. The comparisons that decide a branch (a quotient of two
  counts against 0.85, a count against 0.9 times a whole budget, a complexity score
  against a threshold) come out the same on the doubles and on the rationals.
\<close>

fun startsWith :: "string \<Rightarrow> string \<Rightarrow> bool" where
  "startsWith s [] = True"
| "startsWith [] (p # ps) = False"
| "startsWith (c # cs) (p # ps) = (c = p \<and> startsWith cs ps)"

text \<open>\<open>s.includes(p)\<close>: \<open>p\<close> occurs in \<open>s\<close> as a contiguous substring.\<close>

fun str_includes :: "string \<Rightarrow> string \<Rightarrow> bool" where
  "str_includes [] p = (p = [])"
| "str_includes (c # cs) p = (startsWith (c # cs) p \<or> str_includes cs p)"

text \<open>\<open>parts.join(sep)\<close>.\<close>

fun join :: "string \<Rightarrow> string list \<Rightarrow> string" where
  "join sep [] = []"
| "join sep [x] = x"
| "join sep (x # y # ys) = x @ sep @ join sep (y # ys)"

definition isUpperAscii :: "char \<Rightarrow> bool" where
  "isUpperAscii c = (65 \<le> (of_char c :: nat) \<and> (of_char c :: nat) \<le> 90)"

definition isLowerAscii :: "char \<Rightarrow> bool" where
  "isLowerAscii c = (97 \<le> (of_char c :: nat) \<and> (of_char c :: nat) \<le> 122)"

definition isDigit :: "char \<Rightarrow> bool" where
  "isDigit c = (48 \<le> (of_char c :: nat) \<and> (of_char c :: nat) \<le> 57)"

text \<open>The class \<open>\w\<close> is \<open>[A-Za-z0-9_]\<close>.\<close>

definition isWordChar :: "char \<Rightarrow> bool" where
  "isWordChar c = (isUpperAscii c \<or> isLowerAscii c \<or> isDigit c \<or> c = CHR ''_'')"

text \<open>
  The class \<open>\s\<close> below code unit 256: tab, line feed, vertical tab, form feed,
  carriage return, space and the no-break space.
\<close>

definition isSpace :: "char \<Rightarrow> bool" where
  "isSpace c = ((9 \<le> (of_char c :: nat) \<and> (of_char c :: nat) \<le> 13)
     \<or> (of_char c :: nat) = 32 \<or> (of_char c :: nat) = 160)"

text \<open>
  Case folding of one code unit as an \<open>/i\<close> pattern made of ASCII characters sees it:
  only the ASCII capitals are folded.
\<close>

definition asciiLower :: "char \<Rightarrow> char" where
  "asciiLower c = (if isUpperAscii c then char_of ((of_char c :: nat) + 32) else c)"

text \<open>
  \<open>s.toLowerCase()\<close> below code unit 256: the ASCII capitals and the capitals
  \<open>0xC0..0xDE\<close> other than the multiplication sign \<open>0xD7\<close> move up by 32.
\<close>

definition lowerChar :: "char \<Rightarrow> char" where
  "lowerChar c =
     (if isUpperAscii c
         \<or> (192 \<le> (of_char c :: nat) \<and> (of_char c :: nat) \<le> 222 \<and> (of_char c :: nat) \<noteq> 215)
      then char_of ((of_char c :: nat) + 32) else c)"

definition toLowerCase :: "string \<Rightarrow> string" where
  "toLowerCase s = map lowerChar s"

text \<open>\<open>s.trim()\<close>: white space is dropped at both ends.\<close>

definition trim :: "string \<Rightarrow> string" where
  "trim s = rev (dropWhile isSpace (rev (dropWhile isSpace s)))"

text \<open>
  Regular expressions without anchors, look-around or back references. \<open>Lit w\<close> is
  the literal text \<open>w\<close>, \<open>Cls p\<close> one code unit of the class \<open>p\<close>.
\<close>

datatype regex =
    Never
  | Empty
  | Lit string
  | Cls "char \<Rightarrow> bool"
  | Alt regex regex
  | Seq regex regex
  | Star regex

primrec nullable :: "regex \<Rightarrow> bool" where
  "nullable Never = False"
| "nullable Empty = True"
| "nullable (Lit w) = (w = [])"
| "nullable (Cls p) = False"
| "nullable (Alt a b) = (nullable a \<or> nullable b)"
| "nullable (Seq a b) = (nullable a \<and> nullable b)"
| "nullable (Star a) = True"

text \<open>\<open>dead r\<close> is a syntactic check that \<open>r\<close> matches nothing at all.\<close>

primrec dead :: "regex \<Rightarrow> bool" where
  "dead Never = True"
| "dead Empty = False"
| "dead (Lit w) = False"
| "dead (Cls p) = False"
| "dead (Alt a b) = (dead a \<and> dead b)"
| "dead (Seq a b) = (dead a \<or> dead b)"
| "dead (Star a) = False"

text \<open>The derivative: what remains to be matched after reading the code unit \<open>c\<close>.\<close>

primrec deriv :: "char \<Rightarrow> regex \<Rightarrow> regex" where
  "deriv c Never = Never"
| "deriv c Empty = Never"
| "deriv c (Lit w) = (case w of [] \<Rightarrow> Never | x # xs \<Rightarrow> if x = c then Lit xs else Never)"
| "deriv c (Cls p) = (if p c then Empty else Never)"
| "deriv c (Alt a b) =
     (if dead (deriv c a) then deriv c b
      else if dead (deriv c b) then deriv c a
      else Alt (deriv c a) (deriv c b))"
| "deriv c (Seq a b) =
     (if nullable a
      then (if dead (deriv c a) then deriv c b else Alt (Seq (deriv c a) b) (deriv c b))
      else (if dead (deriv c a) then Never else Seq (deriv c a) b))"
| "deriv c (Star a) = (if dead (deriv c a) then Never else Seq (deriv c a) (Star a))"

text \<open>Some prefix of the text matches.\<close>

fun matchesPrefix :: "regex \<Rightarrow> string \<Rightarrow> bool" where
  "matchesPrefix r [] = nullable r"
| "matchesPrefix r (c # cs) =
     (if nullable r then True
      else if dead r then False
      else matchesPrefix (deriv c r) cs)"

text \<open>The whole text matches: a pattern written between \<open>^\<close> and \<open>$\<close>.\<close>

fun matchesWhole :: "regex \<Rightarrow> string \<Rightarrow> bool" where
  "matchesWhole r [] = nullable r"
| "matchesWhole r (c # cs) = (if dead r then False else matchesWhole (deriv c r) cs)"

text \<open>\<open>pattern.test(s)\<close>: the pattern matches somewhere in \<open>s\<close>.\<close>

fun regexTest :: "regex \<Rightarrow> string \<Rightarrow> bool" where
  "regexTest r [] = nullable r"
| "regexTest r (c # cs) = (if matchesPrefix r (c # cs) then True else regexTest r cs)"

text \<open>
  The same under the flag \<open>i\<close>, for a pattern written in lower case: the text is
  folded code unit by code unit.
\<close>

definition regexTestI :: "regex \<Rightarrow> string \<Rightarrow> bool" where
  "regexTestI r s = regexTest r (map asciiLower s)"

text \<open>\<open>w1|w2|...\<close> for literal alternatives.\<close>

definition anyOf :: "string list \<Rightarrow> regex" where
  "anyOf ws = foldr (\<lambda>w r. Alt (Lit w) r) ws Never"

definition spaces :: regex where
  "spaces = Star (Cls isSpace)"

section \<open>The model router\<close>

datatype ModelType = Fast | Educational | Validation | Custom

datatype OptimizationGoal = Cost_optimized | Balanced | Quality_focused

datatype TaskType =
    Simple_parameter_adjustment
  | Visualization_generation
  | Complex_educational_concept
  | Scientific_validation
  | Interactive_features

datatype Provider = Openai | Anthropic | Local

record ModelConfig =
  name :: string
  provider :: Provider
  model :: string
  costPerToken :: rat
  latency :: nat
  capabilities :: "TaskType set"

record RoutingDecision =
  decisionModel :: ModelConfig
  reason :: string
  estimatedCost :: rat
  estimatedLatency :: nat
  confidence :: rat

record UsageMetrics =
  totalRequests :: nat
  totalCost :: rat
  modelUsage :: "(string \<times> nat) list"
  averageLatency :: rat

text \<open>A failed run of the host language: reading a property of \<open>undefined\<close>.\<close>

datatype error = TypeError string

definition routingThresholds :: "OptimizationGoal \<Rightarrow> rat" where
  "routingThresholds g =
     (case g of Cost_optimized \<Rightarrow> 11593 / 100000 | Balanced \<Rightarrow> 8 / 100 | Quality_focused \<Rightarrow> 5 / 100)"

definition taskComplexityScores :: "TaskType \<Rightarrow> rat" where
  "taskComplexityScores t =
     (case t of
        Simple_parameter_adjustment \<Rightarrow> 2 / 10
      | Visualization_generation \<Rightarrow> 5 / 10
      | Complex_educational_concept \<Rightarrow> 8 / 10
      | Scientific_validation \<Rightarrow> 9 / 10
      | Interactive_features \<Rightarrow> 6 / 10)"

text \<open>The name of a task type as the source writes it in a template string.\<close>

definition taskTypeName :: "TaskType \<Rightarrow> string" where
  "taskTypeName t =
     (case t of
        Simple_parameter_adjustment \<Rightarrow> ''simple_parameter_adjustment''
      | Visualization_generation \<Rightarrow> ''visualization_generation''
      | Complex_educational_concept \<Rightarrow> ''complex_educational_concept''
      | Scientific_validation \<Rightarrow> ''scientific_validation''
      | Interactive_features \<Rightarrow> ''interactive_features'')"

text \<open>The catalogue, a \<open>Map\<close> in insertion order: fast, educational, validation.\<close>

definition initializeModels :: "(ModelType \<times> ModelConfig) list" where
  "initializeModels =
     [(Fast, \<lparr>name = ''gpt-3.5-turbo'', provider = Openai, model = ''gpt-3.5-turbo'',
         costPerToken = 5 / 10000, latency = 300,
         capabilities = {Simple_parameter_adjustment, Visualization_generation}\<rparr>),
      (Educational, \<lparr>name = ''gpt-3.5-turbo-16k'', provider = Openai, model = ''gpt-3.5-turbo-16k'',
         costPerToken = 1 / 1000, latency = 400,
         capabilities = {Visualization_generation, Complex_educational_concept, Interactive_features}\<rparr>),
      (Validation, \<lparr>name = ''gpt-4'', provider = Openai, model = ''gpt-4'',
         costPerToken = 3 / 100, latency = 800,
         capabilities = {Scientific_validation, Complex_educational_concept}\<rparr>)]"

record PromptAnalysis =
  requiresHighAccuracy :: bool
  isVisualizationTask :: bool
  hasComplexMath :: bool

definition analyzePrompt :: "string \<Rightarrow> PromptAnalysis" where
  "analyzePrompt prompt =
     \<lparr>requiresHighAccuracy =
        regexTestI (anyOf [''scientifically accurate'', ''precise'', ''exact'', ''formula'']) prompt,
      isVisualizationTask =
        regexTestI
          (Alt (Seq (Lit ''visuali'') (Seq (Cls (\<lambda>c. c = CHR ''s'' \<or> c = CHR ''z'')) (Lit ''e'')))
               (anyOf [''show'', ''display'', ''animate'', ''interactive''])) prompt,
      hasComplexMath =
        regexTestI (anyOf [''integral'', ''derivative'', ''differential'', ''quantum'', ''relativity''])
          prompt\<rparr>"

text \<open>The first model of the catalogue, in insertion order, that lists the task type.\<close>

fun findCapableModelIn :: "(ModelType \<times> ModelConfig) list \<Rightarrow> TaskType \<Rightarrow> ModelConfig option" where
  "findCapableModelIn [] taskType = None"
| "findCapableModelIn ((k, m) # ms) taskType =
     (if taskType \<in> capabilities m then Some m else findCapableModelIn ms taskType)"

definition findCapableModel :: "TaskType \<Rightarrow> ModelConfig option" where
  "findCapableModel taskType = findCapableModelIn initializeModels taskType"

text \<open>\<open>Math.ceil(text.length / 4)\<close>.\<close>

definition estimateTokens :: "string \<Rightarrow> nat" where
  "estimateTokens text = nat \<lceil>(of_nat (length text) :: rat) / 4\<rceil>"

definition calculateConfidence :: "ModelConfig \<Rightarrow> TaskType \<Rightarrow> rat \<Rightarrow> rat" where
  "calculateConfidence m taskType complexity =
     (let c0 = 5 / 10;
          c1 = (if taskType \<in> capabilities m then c0 + 3 / 10 else c0);
          c2 = (if complexity < 3 / 10 \<and> str_includes (name m) ''fast'' then c1 + 2 / 10
                else if complexity > 7 / 10 \<and> str_includes (name m) ''validation'' then c1 + 2 / 10
                else c1)
      in min c2 1)"

text \<open>\<open>map.set(k, v)\<close> on a \<open>Map\<close>: an existing key keeps its place, a new one goes last.\<close>

fun mapSet :: "'k \<Rightarrow> 'v \<Rightarrow> ('k \<times> 'v) list \<Rightarrow> ('k \<times> 'v) list" where
  "mapSet k v [] = [(k, v)]"
| "mapSet k v ((k', v') # kvs) = (if k' = k then (k, v) # kvs else (k', v') # mapSet k v kvs)"

definition updateMetrics :: "UsageMetrics \<Rightarrow> string \<Rightarrow> rat \<Rightarrow> UsageMetrics" where
  "updateMetrics um modelName cost =
     (let currentUsage = (case map_of (modelUsage um) modelName of None \<Rightarrow> 0 | Some n \<Rightarrow> n)
      in um\<lparr>totalRequests := totalRequests um + 1,
            totalCost := totalCost um + cost,
            modelUsage := mapSet modelName (currentUsage + 1) (modelUsage um)\<rparr>)"

text \<open>
  \<open>this.models.get(k)!\<close>: the entry, or a failure at the first use of the missing
  entry.
\<close>

definition getModel :: "ModelType \<Rightarrow> error + ModelConfig" where
  "getModel k =
     (case map_of initializeModels k of
        None \<Rightarrow> Inl (TypeError ''Cannot read properties of undefined'')
      | Some m \<Rightarrow> Inr m)"

definition routeRequest ::
  "UsageMetrics \<Rightarrow> TaskType \<Rightarrow> string \<Rightarrow> string \<Rightarrow> OptimizationGoal
     \<Rightarrow> error + (RoutingDecision \<times> UsageMetrics)" where
  "routeRequest um taskType userPrompt context optimizationGoal =
     (let complexity = taskComplexityScores taskType;
          threshold = routingThresholds optimizationGoal;
          promptAnalysis = analyzePrompt userPrompt;
          chosen =
            (if complexity > threshold \<or> requiresHighAccuracy promptAnalysis
             then (getModel Validation, ''Complex educational concept requiring high accuracy'')
             else if isVisualizationTask promptAnalysis \<and> complexity > 3 / 10
             then (getModel Educational, ''D3.js visualization generation task'')
             else (getModel Fast, ''Simple parameter adjustment or basic task''))
      in case fst chosen of
           Inl e \<Rightarrow> Inl e
         | Inr selected \<Rightarrow>
             (let fallen =
                    (if taskType \<notin> capabilities selected
                     then (case findCapableModel taskType of None \<Rightarrow> selected | Some m \<Rightarrow> m,
                           ''Fallback: original model not capable of '' @ taskTypeName taskType)
                     else (selected, snd chosen));
                  selectedModel = fst fallen;
                  estimatedTokens = estimateTokens (userPrompt @ context);
                  cost = of_nat estimatedTokens * costPerToken selectedModel
              in Inr (\<lparr>decisionModel = selectedModel,
                        reason = snd fallen,
                        estimatedCost = cost,
                        estimatedLatency = latency selectedModel,
                        confidence = calculateConfidence selectedModel taskType complexity\<rparr>,
                      updateMetrics um (name selectedModel) cost)))"

section \<open>The streaming validator: the final validation pass\<close>

datatype ErrorType = SyntaxT | SemanticT | EducationalT | PerformanceT

datatype Severity = SevError | SevWarning | SevInfo

text \<open>The field \<open>type\<close> of the source is \<open>errType\<close> here.\<close>

record ValidationError =
  errType :: ErrorType
  severity :: Severity
  message :: string
  line :: "nat option"
  column :: "nat option"
  suggestion :: "string option"

record ValidationResult =
  isValid :: bool
  errors :: "ValidationError list"
  warnings :: "ValidationError list"
  suggestions :: "string list"
  scientificAccuracy :: "rat option"
  pedagogicalQuality :: "rat option"

text \<open>
  The parser is a library outside the repository, so it is a parameter of the model.
  It is called with one of two option sets and either throws, with a message and
  possibly a position, or returns a syntax tree. Of the tree the validator reads
  only the call expressions, in the order in which the tree walk visits them: for
  each the name of the property that is called (if the callee has one), the value
  of the first argument and the line where the call starts.
\<close>

datatype ParseOptions = ImportExportEverywhere | WithLocations

record ParseFailure =
  failMessage :: string
  failLine :: "nat option"
  failColumn :: "nat option"

text \<open>
  The \<open>value\<close> of the first argument: absent or null (no argument, or not a string
  literal with a value), a string, or a value of another type, which has no method
  \<open>startsWith\<close>.
\<close>

datatype ArgValue = NoValue | StringValue string | OtherValue

record CallExpression =
  calleeProperty :: "string option"
  firstArgValue :: ArgValue
  startLine :: "nat option"

type_synonym parser = "ParseOptions \<Rightarrow> string \<Rightarrow> ParseFailure + CallExpression list"

definition quoteChar :: "char \<Rightarrow> bool" where
  "quoteChar c = (c = CHR 0x27 \<or> c = CHR 0x22)"

definition hasVisualizationContainer :: regex where
  "hasVisualizationContainer =
     Alt (Lit ''#visualization'') (Seq (Lit ''.select('') (Seq (Cls quoteChar) (Lit ''#visualization'')))"

definition hasInteractivity :: regex where
  "hasInteractivity =
     Seq (Lit ''.on('') (Seq (Cls quoteChar) (anyOf [''click'', ''mouseover'', ''mousemove'', ''drag'']))"

definition hasLabels :: regex where
  "hasLabels = Alt (Lit ''.text('') (Seq (Lit ''.append('') (Seq (Cls quoteChar) (Lit ''text'')))"

definition hasScales :: regex where
  "hasScales = Seq (Lit ''scale'') (anyOf [''Linear'', ''Log'', ''Time'', ''Ordinal''])"

definition hasAccessibility :: regex where
  "hasAccessibility = Alt (Lit ''aria-'') (Lit ''role='')"

text \<open>\<open>/g\s*=\s*(9\.8[01]?|10)/\<close>\<close>

definition gravityPattern :: regex where
  "gravityPattern =
     Seq (Lit ''g'') (Seq spaces (Seq (Lit ''='') (Seq spaces
       (Alt (Seq (Lit ''9.8'') (Alt (Cls (\<lambda>c. c = CHR ''0'' \<or> c = CHR ''1'')) Empty)) (Lit ''10'')))))"

text \<open>\<open>/2\s*\*\s*Math\.PI\s*\*\s*Math\.sqrt/\<close>\<close>

definition pendulumFormula :: regex where
  "pendulumFormula =
     Seq (Lit ''2'') (Seq spaces (Seq (Lit ''*'') (Seq spaces (Seq (Lit ''Math.PI'')
       (Seq spaces (Seq (Lit ''*'') (Seq spaces (Lit ''Math.sqrt''))))))))"

text \<open>\<open>/^#[a-zA-Z][\w-]*$/\<close>, matched against the whole selector.\<close>

definition idSelector :: regex where
  "idSelector =
     Seq (Lit ''#'') (Seq (Cls (\<lambda>c. isLowerAscii c \<or> isUpperAscii c))
       (Star (Cls (\<lambda>c. isWordChar c \<or> c = CHR ''-''))))"

definition checkSyntax :: "parser \<Rightarrow> string \<Rightarrow> bool \<times> ValidationError list" where
  "checkSyntax parse code =
     (case parse ImportExportEverywhere code of
        Inr ast \<Rightarrow> (True, [])
      | Inl e \<Rightarrow>
          (False, [\<lparr>errType = SyntaxT, severity = SevError, message = failMessage e,
                     line = failLine e, column = failColumn e, suggestion = None\<rparr>]))"

text \<open>
  The visitor of one call expression. \<open>None\<close> stands for the \<open>TypeError\<close> thrown
  when \<open>startsWith\<close> is called on a first argument that is not a string.
\<close>

definition visitCallExpression :: "string \<Rightarrow> CallExpression \<Rightarrow> ValidationError list option" where
  "visitCallExpression code node =
     (let dataJoin =
            (if calleeProperty node = Some ''data''
                \<and> \<not> str_includes code ''.join('' \<and> \<not> str_includes code ''.enter(''
             then [\<lparr>errType = SemanticT, severity = SevWarning,
                     message = ''Data binding without enter/update/exit pattern'',
                     line = startLine node, column = None,
                     suggestion = Some ''Consider using .join() for proper data binding''\<rparr>]
             else [])
      in if calleeProperty node = Some ''select''
         then (case firstArgValue node of
                 NoValue \<Rightarrow> Some dataJoin
               | OtherValue \<Rightarrow> None
               | StringValue selector \<Rightarrow>
                   Some ((if startsWith selector ''#'' \<and> \<not> matchesWhole idSelector selector
                          then [\<lparr>errType = SemanticT, severity = SevWarning,
                                  message = ''Invalid ID selector: '' @ selector,
                                  line = startLine node, column = None,
                                  suggestion = Some ''Use valid CSS ID selector syntax''\<rparr>]
                          else []) @ dataJoin))
         else Some dataJoin)"

text \<open>
  The walk over the call expressions; a throwing visitor ends it, and the warnings
  pushed so far stay.
\<close>

fun walkSimple :: "string \<Rightarrow> CallExpression list \<Rightarrow> ValidationError list \<Rightarrow> ValidationError list" where
  "walkSimple code [] ws = ws"
| "walkSimple code (node # nodes) ws =
     (case visitCallExpression code node of
        None \<Rightarrow> ws
      | Some new \<Rightarrow> walkSimple code nodes (ws @ new))"

text \<open>Returns the pair \<open>(errors, warnings)\<close>.\<close>

definition performASTValidation :: "parser \<Rightarrow> string \<Rightarrow> ValidationError list \<times> ValidationError list" where
  "performASTValidation parse code =
     (case parse WithLocations code of
        Inl e \<Rightarrow> ([], [])
      | Inr ast \<Rightarrow> ([], walkSimple code ast []))"

text \<open>Returns \<open>(warnings, suggestions, quality)\<close>.\<close>

definition checkEducationalQuality :: "string \<Rightarrow> ValidationError list \<times> string list \<times> rat" where
  "checkEducationalQuality codeBuffer =
     (let (warnings1, quality1) =
            (if \<not> regexTest hasVisualizationContainer codeBuffer
             then ([\<lparr>errType = EducationalT, severity = SevError,
                      message = ''No #visualization container found'',
                      line = None, column = None,
                      suggestion = Some ''Ensure code targets the #visualization element''\<rparr>],
                   1 - 3 / 10)
             else ([], 1));
          (suggestions2, quality2) =
            (if \<not> regexTest hasInteractivity codeBuffer
             then ([''Consider adding interactive elements for better engagement''], quality1 - 1 / 10)
             else ([], quality1));
          (warnings3, quality3) =
            (if \<not> regexTest hasLabels codeBuffer
             then (warnings1 @ [\<lparr>errType = EducationalT, severity = SevWarning,
                      message = ''No text labels found'',
                      line = None, column = None,
                      suggestion = Some ''Add labels to explain the visualization''\<rparr>],
                   quality2 - 2 / 10)
             else (warnings1, quality2));
          suggestions4 =
            (if \<not> regexTest hasScales codeBuffer
             then suggestions2 @ [''Consider using D3 scales for proper data mapping'']
             else suggestions2)
      in (warnings3, suggestions4, max 0 quality3))"

text \<open>
  Returns \<open>(warnings, accuracy)\<close>. The two suggestion texts hold characters beyond
  code unit 255 in the source (the superscript two is below it); they are labels
  that nothing reads, written here with the bytes of their UTF-8 form.
\<close>

definition checkScientificAccuracy :: "string \<Rightarrow> ValidationError list \<times> rat" where
  "checkScientificAccuracy codeBuffer =
     (let (warnings1, accuracy1) =
            (if (str_includes codeBuffer ''gravity'' \<or> str_includes codeBuffer ''9.8'')
                \<and> \<not> regexTest gravityPattern codeBuffer
             then ([\<lparr>errType = EducationalT, severity = SevWarning,
                      message = ''Gravity constant may be inaccurate'',
                      line = None, column = None,
                      suggestion = Some (''Use g = 9.81 m/s'' @ [CHR 0xB2] @ '' for Earth's gravity'')\<rparr>],
                   1 - 2 / 10)
             else ([], 1));
          warnings2 =
            (if str_includes codeBuffer ''pendulum'' \<and> \<not> regexTest pendulumFormula codeBuffer
             then warnings1 @ [\<lparr>errType = EducationalT, severity = SevInfo,
                      message = ''Pendulum period formula not found'',
                      line = None, column = None,
                      suggestion = Some (''Period T = 2'' @ [CHR 0xCF, CHR 0x80, CHR 0xE2, CHR 0x88, CHR 0x9A]
                                         @ ''(L/g) for small angles'')\<rparr>]
             else warnings1)
      in (warnings2, max 0 accuracy1))"

text \<open>The number of matches of a literal pattern under the flag \<open>g\<close>, left to right.\<close>

fun countMatches :: "string \<Rightarrow> string \<Rightarrow> nat" where
  "countMatches p [] = 0"
| "countMatches p (c # cs) =
     (if startsWith (c # cs) p then Suc (countMatches p (drop (length p - 1) cs))
      else countMatches p cs)"

definition digitChar :: "nat \<Rightarrow> char" where
  "digitChar d = char_of (48 + d)"

text \<open>A count written in decimal, as a template string does.\<close>

fun showNat :: "nat \<Rightarrow> string" where
  "showNat n = (if n < 10 then [digitChar n] else showNat (n div 10) @ [digitChar (n mod 10)])"

definition checkPerformanceComplete :: "string \<Rightarrow> ValidationError list" where
  "checkPerformanceComplete codeBuffer =
     (let appendCount = countMatches ''.append('' codeBuffer
      in if appendCount > 100
         then [\<lparr>errType = PerformanceT, severity = SevWarning,
                 message = ''High number of append operations ('' @ showNat appendCount @ '')'',
                 line = None, column = None,
                 suggestion = Some ''Consider using enter/update/exit pattern for efficiency''\<rparr>]
         else [])"

definition checkAccessibility :: "string \<Rightarrow> string list" where
  "checkAccessibility codeBuffer =
     (if \<not> regexTest hasAccessibility codeBuffer
      then [''Consider adding ARIA labels for screen reader accessibility''] else [])
     @ (if str_includes codeBuffer ''fill'' \<or> str_includes codeBuffer ''stroke''
        then [''Ensure sufficient color contrast for visibility''] else [])"

text \<open>
  The final validation of the accumulated code buffer. The result starts valid and
  empty with both scores at 1; a syntax failure returns at once.
\<close>

definition validateComplete :: "parser \<Rightarrow> string \<Rightarrow> ValidationResult" where
  "validateComplete parse codeBuffer =
     (let result = \<lparr>isValid = True, errors = [], warnings = [], suggestions = [],
                     scientificAccuracy = Some 1, pedagogicalQuality = Some 1\<rparr>;
          syntaxCheck = checkSyntax parse codeBuffer
      in if \<not> fst syntaxCheck
         then result\<lparr>errors := errors result @ snd syntaxCheck, isValid := False\<rparr>
         else
           (let semanticCheck = performASTValidation parse codeBuffer;
                educationalCheck = checkEducationalQuality codeBuffer;
                scientificCheck = checkScientificAccuracy codeBuffer;
                performanceCheck = checkPerformanceComplete codeBuffer;
                accessibilityCheck = checkAccessibility codeBuffer;
                allErrors = errors result @ fst semanticCheck
            in \<lparr>isValid = (allErrors = []),
                errors = allErrors,
                warnings = warnings result @ snd semanticCheck @ fst educationalCheck
                             @ fst scientificCheck @ performanceCheck,
                suggestions = suggestions result @ fst (snd educationalCheck) @ accessibilityCheck,
                scientificAccuracy = Some (snd scientificCheck),
                pedagogicalQuality = Some (snd (snd educationalCheck))\<rparr>))"

text \<open>
  The outcome of one parser run, for the examples: a run that throws, and a run
  that returns a tree with the given call expressions.
\<close>

definition throwing :: "ParseFailure \<Rightarrow> parser" where
  "throwing e = (\<lambda>opts code. Inl e)"

definition returning :: "CallExpression list \<Rightarrow> parser" where
  "returning ast = (\<lambda>opts code. Inr ast)"

section \<open>The context compression engine\<close>

datatype Role = User | Assistant | System

definition roleName :: "Role \<Rightarrow> string" where
  "roleName r = (case r of User \<Rightarrow> ''user'' | Assistant \<Rightarrow> ''assistant'' | System \<Rightarrow> ''system'')"

record Metadata =
  concept :: "string option"
  subject :: "string option"
  visualizationType :: "string option"
  importance :: "rat option"

record ConversationTurn =
  role :: Role
  content :: string
  timestamp :: int
  metadata :: "Metadata option"

text \<open>
  A key decision, the object \<open>{content, type, importance}\<close> of the source.
\<close>

record KeyDecision =
  decisionContent :: string
  decisionType :: Role
  decisionImportance :: rat

text \<open>
  The memory layers. The two \<open>Map\<close>s and the \<open>Set\<close> are lists in insertion order,
  the order in which the source iterates them.
\<close>

record MemoryLayer =
  activeContext :: "ConversationTurn list"
  projectMemory :: "(string \<times> KeyDecision list) list"
  semanticCache :: "(string \<times> string) list"
  educationalConcepts :: "string list"

text \<open>The quotient of two counts as the host language computes it.\<close>

datatype Quotient = Finite rat | Infinity | NaN

definition quotientOf :: "nat \<Rightarrow> nat \<Rightarrow> Quotient" where
  "quotientOf a b = (if b = 0 then (if a = 0 then NaN else Infinity) else Finite (of_nat a / of_nat b))"

record CompressionResult =
  compressed :: "ConversationTurn list"
  compressionRatio :: Quotient
  preservedConcepts :: "string list"
  tokenCount :: nat

text \<open>
  What the engine takes from outside the repository: the tokenizer \<open>encode\<close> and
  the way \<open>JSON.stringify\<close> writes a number. The clock \<open>Date.now()\<close> is a further
  parameter of each call: \<open>clock k\<close> is its \<open>k\<close>-th reading during the call.
\<close>

record Runtime =
  encode :: "string \<Rightarrow> nat list"
  numberToJSON :: "rat \<Rightarrow> string"

definition initialMemory :: MemoryLayer where
  "initialMemory = \<lparr>activeContext = [], projectMemory = [], semanticCache = [], educationalConcepts = []\<rparr>"

definition MAX_ACTIVE_TURNS :: nat where
  "MAX_ACTIVE_TURNS = 10"

definition topicPatterns :: "(string \<times> regex) list" where
  "topicPatterns =
     [(''physics'', anyOf [''pendulum'', ''wave'', ''motion'', ''force'', ''energy'', ''momentum'']),
      (''math'', anyOf [''derivative'', ''integral'', ''calculus'', ''algebra'', ''geometry'', ''vector'']),
      (''chemistry'', anyOf [''molecule'', ''reaction'', ''element'', ''compound'', ''periodic'']),
      (''visualization'', anyOf [''d3'', ''chart'', ''graph'', ''animation'', ''interactive''])]"

fun firstTopic :: "(string \<times> regex) list \<Rightarrow> string \<Rightarrow> string" where
  "firstTopic [] text = ''general''"
| "firstTopic ((topic, pattern) # ps) text =
     (if regexTestI pattern text then topic else firstTopic ps text)"

definition extractTopic :: "ConversationTurn \<Rightarrow> string" where
  "extractTopic turn =
     (case metadata turn of
        None \<Rightarrow> firstTopic topicPatterns (content turn)
      | Some md \<Rightarrow>
          (case concept md of
             None \<Rightarrow> firstTopic topicPatterns (content turn)
           | Some c \<Rightarrow> if c \<noteq> [] then c else firstTopic topicPatterns (content turn)))"

text \<open>
  The segments, a \<open>Map\<close> from topic to its turns: each turn is pushed to the entry
  of its topic, which is created empty at the end of the map when it is new.
\<close>

fun segmentLoop ::
  "(string \<times> ConversationTurn list) list \<Rightarrow> ConversationTurn list
     \<Rightarrow> (string \<times> ConversationTurn list) list" where
  "segmentLoop segments [] = segments"
| "segmentLoop segments (turn # history) =
     (let currentTopic = extractTopic turn;
          present = (case map_of segments currentTopic of None \<Rightarrow> [] | Some ts \<Rightarrow> ts)
      in segmentLoop (mapSet currentTopic (present @ [turn]) segments) history)"

definition segmentByTopics :: "ConversationTurn list \<Rightarrow> (string \<times> ConversationTurn list) list" where
  "segmentByTopics history = segmentLoop [] history"

definition fillers :: "string list" where
  "fillers = [''basically'', ''actually'', ''just'', ''really'', ''very'', ''quite'']"

text \<open>
  The length of the filler word that \<open>/\b(basically|actually|just|really|very|quite)\b/i\<close>
  matches at the start of the text, given that a word boundary precedes it: the
  word, in any case, followed by the end of the text or by a code unit outside \<open>\w\<close>.
\<close>

fun fillerAt :: "string list \<Rightarrow> string \<Rightarrow> nat option" where
  "fillerAt [] s = None"
| "fillerAt (w # ws) s =
     (if map asciiLower (take (length w) s) = w
         \<and> (case drop (length w) s of [] \<Rightarrow> True | c # cs \<Rightarrow> \<not> isWordChar c)
      then Some (length w) else fillerAt ws s)"

text \<open>
  \<open>.replace(/\b(basically|actually|just|really|very|quite)\b/gi, '')\<close>; the flag
  tells whether the code unit before the text is in \<open>\w\<close>.
\<close>

fun removeFillers :: "bool \<Rightarrow> string \<Rightarrow> string" where
  "removeFillers afterWord [] = []"
| "removeFillers afterWord (c # cs) =
     (if afterWord then c # removeFillers (isWordChar c) cs
      else (case fillerAt fillers (c # cs) of
              None \<Rightarrow> c # removeFillers (isWordChar c) cs
            | Some n \<Rightarrow> removeFillers True (drop (n - 1) cs)))"

text \<open>\<open>.replace(/\s+/g, ' ')\<close>; the flag tells whether the run of white space has begun.\<close>

fun collapseSpaces :: "bool \<Rightarrow> string \<Rightarrow> string" where
  "collapseSpaces inRun [] = []"
| "collapseSpaces inRun (c # cs) =
     (if isSpace c then (if inRun then collapseSpaces True cs else CHR '' '' # collapseSpaces True cs)
      else c # collapseSpaces False cs)"

text \<open>
  \<open>.split(/[.!?]+/)\<close> and the like: the pieces between the maximal runs of separator
  code units, with the empty pieces at both ends.
\<close>

fun splitRuns :: "(char \<Rightarrow> bool) \<Rightarrow> string \<Rightarrow> bool \<Rightarrow> string \<Rightarrow> string list" where
  "splitRuns sep piece inRun [] = [piece]"
| "splitRuns sep piece inRun (c # cs) =
     (if sep c then (if inRun then splitRuns sep piece True cs else piece # splitRuns sep [] True cs)
      else splitRuns sep (piece @ [c]) False cs)"

text \<open>\<open>.split(' ')\<close>: the pieces between the single separator code units.\<close>

fun splitAt :: "char \<Rightarrow> string \<Rightarrow> string \<Rightarrow> string list" where
  "splitAt sep piece [] = [piece]"
| "splitAt sep piece (c # cs) =
     (if c = sep then piece # splitAt sep [] cs else splitAt sep (piece @ [c]) cs)"

definition extractCoreInformation :: "string \<Rightarrow> string" where
  "extractCoreInformation text =
     (let compressedText = trim (collapseSpaces False (removeFillers False text));
          sentences =
            filter (\<lambda>s. trim s \<noteq> [])
              (splitRuns (\<lambda>c. c = CHR ''.'' \<or> c = CHR ''!'' \<or> c = CHR ''?'') [] False compressedText)
      in if length sentences > 3
         then hd sentences @ ''. [...] '' @ last sentences @ ''.''
         else compressedText)"

definition isKeyDecision :: "string \<Rightarrow> bool" where
  "isKeyDecision text =
     (let isParameterDefinition = regexTestI (anyOf [''set'', ''define'', ''configure'', ''parameter'']) text;
          isFormulaExplanation = regexTestI (anyOf [''formula'', ''equation'', ''calculate'']) text;
          isVisualizationSpec = regexTestI (anyOf [''create'', ''generate'', ''show'', ''display'']) text
      in isParameterDefinition \<or> isFormulaExplanation \<or> isVisualizationSpec)"

text \<open>\<open>turn.metadata?.importance || 0.8\<close>: an importance that is absent or 0 gives 0.8.\<close>

definition importanceOf :: "ConversationTurn \<Rightarrow> rat" where
  "importanceOf turn =
     (case metadata turn of
        None \<Rightarrow> 8 / 10
      | Some md \<Rightarrow> (case importance md of None \<Rightarrow> 8 / 10 | Some i \<Rightarrow> if i = 0 then 8 / 10 else i))"

fun extractKeyDecisions :: "ConversationTurn list \<Rightarrow> KeyDecision list" where
  "extractKeyDecisions [] = []"
| "extractKeyDecisions (turn # turns) =
     (if isKeyDecision (content turn)
      then \<lparr>decisionContent = extractCoreInformation (content turn),
             decisionType = role turn,
             decisionImportance = importanceOf turn\<rparr> # extractKeyDecisions turns
      else extractKeyDecisions turns)"

definition simplifyContent :: "string \<Rightarrow> string" where
  "simplifyContent text =
     trim (collapseSpaces False (filter (\<lambda>c. isWordChar c \<or> isSpace c) (toLowerCase text)))"

definition calculateSimilarity :: "string \<Rightarrow> string \<Rightarrow> rat" where
  "calculateSimilarity str1 str2 =
     (let words1 = set (splitAt CHR '' '' [] str1);
          words2 = set (splitAt CHR '' '' [] str2);
          intersection = Set.filter (\<lambda>x. x \<in> words2) words1;
          union = words1 \<union> words2
      in of_nat (card intersection) / of_nat (card union))"

text \<open>
  The inner loop of the redundancy compression over the turns of one topic:
  \<open>uniqueContents\<close> holds the simplified contents retained so far, the result is
  the list \<open>compressed\<close> of the retained turns. A content that is not a duplicate
  differs from all retained ones, so adding it to the \<open>Set\<close> puts it last. The
  loop reads a turn only through its content, so the model takes the reading as a
  parameter; turns that carry their position in the list can then be told apart
  as the objects of the source are.
\<close>

fun retainUnique :: "('a \<Rightarrow> string) \<Rightarrow> string list \<Rightarrow> 'a list \<Rightarrow> 'a list" where
  "retainUnique contentOf uniqueContents [] = []"
| "retainUnique contentOf uniqueContents (turn # turns) =
     (let simplified = simplifyContent (contentOf turn)
      in if list_ex (\<lambda>existing. calculateSimilarity simplified existing > 85 / 100) uniqueContents
         then retainUnique contentOf uniqueContents turns
         else turn # retainUnique contentOf (uniqueContents @ [simplified]) turns)"

text \<open>
  One round of the outer loop: when a turn of the topic was dropped, the contents of
  the retained turns, joined by line feeds, become the cache entry of the topic.
\<close>

definition cacheTopic :: "(string \<times> string) list \<Rightarrow> string \<Rightarrow> ConversationTurn list \<Rightarrow> (string \<times> string) list" where
  "cacheTopic cache topic turns =
     (let retained = retainUnique content [] turns
      in if length retained < length turns
         then mapSet topic (join [CHR 0x0A] (map content retained)) cache
         else cache)"

fun compressRedundantInfo ::
  "(string \<times> string) list \<Rightarrow> (string \<times> ConversationTurn list) list \<Rightarrow> (string \<times> string) list" where
  "compressRedundantInfo cache [] = cache"
| "compressRedundantInfo cache ((topic, turns) # segments) =
     compressRedundantInfo (cacheTopic cache topic turns) segments"

text \<open>\<open>set.add(x)\<close> on a \<open>Set\<close>.\<close>

definition setAdd :: "'a \<Rightarrow> 'a list \<Rightarrow> 'a list" where
  "setAdd x xs = (if x \<in> set xs then xs else xs @ [x])"

text \<open>
  One round of the loop of \<open>updateMemoryLayers\<close> over the segments: the key
  decisions of the topic, when there are any, replace its entry in the project
  memory, and a topic other than \<open>general\<close> joins the concepts.
\<close>

definition rememberTopic :: "MemoryLayer \<Rightarrow> string \<Rightarrow> ConversationTurn list \<Rightarrow> MemoryLayer" where
  "rememberTopic mem topic turns =
     (let keyDecisions = extractKeyDecisions turns;
          mem1 = (if length keyDecisions > 0
                  then mem\<lparr>projectMemory := mapSet topic keyDecisions (projectMemory mem)\<rparr>
                  else mem)
      in if topic \<noteq> ''general''
         then mem1\<lparr>educationalConcepts := setAdd topic (educationalConcepts mem1)\<rparr>
         else mem1)"

fun storeDecisions :: "MemoryLayer \<Rightarrow> (string \<times> ConversationTurn list) list \<Rightarrow> MemoryLayer" where
  "storeDecisions mem [] = mem"
| "storeDecisions mem ((topic, turns) # segments) =
     storeDecisions (rememberTopic mem topic turns) segments"

definition updateMemoryLayers :: "MemoryLayer \<Rightarrow> (string \<times> ConversationTurn list) list \<Rightarrow> MemoryLayer" where
  "updateMemoryLayers mem segments =
     (let allTurns = concat (map snd segments);
          mem1 = mem\<lparr>activeContext := drop (length allTurns - MAX_ACTIVE_TURNS) allTurns\<rparr>;
          mem2 = storeDecisions mem1 segments
      in mem2\<lparr>semanticCache := compressRedundantInfo (semanticCache mem2) segments\<rparr>)"

definition countTokens :: "Runtime \<Rightarrow> ConversationTurn list \<Rightarrow> nat" where
  "countTokens rt turns =
     length (encode rt (join [CHR 0x0A] (map (\<lambda>t. roleName (role t) @ '': '' @ content t) turns)))"

definition hexDigit :: "nat \<Rightarrow> char" where
  "hexDigit d = (if d < 10 then char_of (48 + d) else char_of (87 + d))"

text \<open>One code unit inside a JSON string.\<close>

definition jsonChar :: "char \<Rightarrow> string" where
  "jsonChar c =
     (if c = CHR 0x22 then [CHR 0x5C, CHR 0x22]
      else if c = CHR 0x5C then [CHR 0x5C, CHR 0x5C]
      else if c = CHR 0x08 then [CHR 0x5C, CHR ''b'']
      else if c = CHR 0x09 then [CHR 0x5C, CHR ''t'']
      else if c = CHR 0x0A then [CHR 0x5C, CHR ''n'']
      else if c = CHR 0x0C then [CHR 0x5C, CHR ''f'']
      else if c = CHR 0x0D then [CHR 0x5C, CHR ''r'']
      else if (of_char c :: nat) < 32
      then [CHR 0x5C, CHR ''u'', CHR ''0'', CHR ''0'',
            hexDigit ((of_char c :: nat) div 16), hexDigit ((of_char c :: nat) mod 16)]
      else [c])"

definition jsonString :: "string \<Rightarrow> string" where
  "jsonString s = [CHR 0x22] @ concat (map jsonChar s) @ [CHR 0x22]"

definition jsonDecision :: "Runtime \<Rightarrow> KeyDecision \<Rightarrow> string" where
  "jsonDecision rt d =
     ''{'' @ jsonString ''content'' @ '':'' @ jsonString (decisionContent d)
     @ '','' @ jsonString ''type'' @ '':'' @ jsonString (roleName (decisionType d))
     @ '','' @ jsonString ''importance'' @ '':'' @ numberToJSON rt (decisionImportance d) @ ''}''"

text \<open>\<open>JSON.stringify(decisions)\<close> for an array of key decisions.\<close>

definition stringifyDecisions :: "Runtime \<Rightarrow> KeyDecision list \<Rightarrow> string" where
  "stringifyDecisions rt decisions = ''['' @ join '','' (map (jsonDecision rt) decisions) @ '']''"

text \<open>
  The assembly under the budget runs three loops over the pair of the list
  \<open>compressed\<close> (here \<open>out\<close>) and the running sum \<open>currentTokens\<close>. In each round
  a candidate turn is appended, and its own token count added to the sum, when the
  sum stays within the limit; otherwise the pair is left as it is.
\<close>

definition addWithin :: "Runtime \<Rightarrow> rat \<Rightarrow> ConversationTurn \<Rightarrow> ConversationTurn list \<times> nat
     \<Rightarrow> ConversationTurn list \<times> nat" where
  "addWithin rt limit turn acc =
     (case acc of (out, currentTokens) \<Rightarrow>
        (let tokens = countTokens rt [turn]
         in if (of_nat (currentTokens + tokens) :: rat) \<le> limit
            then (out @ [turn], currentTokens + tokens)
            else (out, currentTokens)))"

text \<open>The summary turn of a topic of the project memory, made at clock reading \<open>now\<close>.\<close>

definition summaryTurn :: "Runtime \<Rightarrow> int \<Rightarrow> string \<Rightarrow> KeyDecision list \<Rightarrow> ConversationTurn" where
  "summaryTurn rt now topic decisions =
     \<lparr>role = System,
      content = ''['' @ topic @ '' context]: '' @ stringifyDecisions rt decisions,
      timestamp = now,
      metadata = Some \<lparr>concept = Some topic, subject = None, visualizationType = None,
                       importance = Some (9 / 10)\<rparr>\<rparr>"

text \<open>The summary turn of a topic of the semantic cache.\<close>

definition cacheTurn :: "int \<Rightarrow> string \<Rightarrow> string \<Rightarrow> ConversationTurn" where
  "cacheTurn now topic cachedContent =
     \<lparr>role = System,
      content = ''['' @ topic @ '' summary]: '' @ cachedContent,
      timestamp = now,
      metadata = Some \<lparr>concept = Some topic, subject = None, visualizationType = None,
                       importance = Some (7 / 10)\<rparr>\<rparr>"

text \<open>First loop: the active context, against \<open>maxTokens\<close>.\<close>

fun addActiveContext ::
  "Runtime \<Rightarrow> int \<Rightarrow> ConversationTurn list \<Rightarrow> ConversationTurn list \<times> nat
     \<Rightarrow> ConversationTurn list \<times> nat" where
  "addActiveContext rt maxTokens [] acc = acc"
| "addActiveContext rt maxTokens (turn # turns) acc =
     addActiveContext rt maxTokens turns (addWithin rt (of_int maxTokens) turn acc)"

text \<open>
  Second loop: one summary turn for each topic of the project memory, against
  \<open>maxTokens\<close>; \<open>k\<close> counts the clock readings taken so far.
\<close>

fun addKeyDecisions ::
  "Runtime \<Rightarrow> int \<Rightarrow> (nat \<Rightarrow> int) \<Rightarrow> nat \<Rightarrow> (string \<times> KeyDecision list) list
     \<Rightarrow> ConversationTurn list \<times> nat \<Rightarrow> ConversationTurn list \<times> nat" where
  "addKeyDecisions rt maxTokens clock k [] acc = acc"
| "addKeyDecisions rt maxTokens clock k ((topic, decisions) # entries) acc =
     addKeyDecisions rt maxTokens clock (Suc k) entries
       (addWithin rt (of_int maxTokens) (summaryTurn rt (clock k) topic decisions) acc)"

text \<open>
  Third loop: one summary turn for each topic of the semantic cache, against
  \<open>maxTokens * 0.9\<close>. For a whole budget the comparison of the source agrees with
  the exact one over the rationals.
\<close>

fun addSemanticCache ::
  "Runtime \<Rightarrow> int \<Rightarrow> (nat \<Rightarrow> int) \<Rightarrow> nat \<Rightarrow> (string \<times> string) list
     \<Rightarrow> ConversationTurn list \<times> nat \<Rightarrow> ConversationTurn list \<times> nat" where
  "addSemanticCache rt maxTokens clock k [] acc = acc"
| "addSemanticCache rt maxTokens clock k ((topic, cachedContent) # entries) acc =
     addSemanticCache rt maxTokens clock (Suc k) entries
       (addWithin rt (of_int maxTokens * (9 / 10)) (cacheTurn (clock k) topic cachedContent) acc)"

definition priorityBasedCompression ::
  "Runtime \<Rightarrow> MemoryLayer \<Rightarrow> int \<Rightarrow> (nat \<Rightarrow> int) \<Rightarrow> ConversationTurn list \<times> nat" where
  "priorityBasedCompression rt mem maxTokens clock =
     (let acc1 = addActiveContext rt maxTokens (activeContext mem) ([], 0);
          acc2 = addKeyDecisions rt maxTokens clock 0 (projectMemory mem) acc1
      in addSemanticCache rt maxTokens clock (length (projectMemory mem)) (semanticCache mem) acc2)"

text \<open>The public operation: the result and the memory layers it leaves behind.\<close>

definition compressContext ::
  "Runtime \<Rightarrow> MemoryLayer \<Rightarrow> ConversationTurn list \<Rightarrow> int \<Rightarrow> (nat \<Rightarrow> int)
     \<Rightarrow> CompressionResult \<times> MemoryLayer" where
  "compressContext rt mem conversationHistory maxTokens clock =
     (let segments = segmentByTopics conversationHistory;
          mem' = updateMemoryLayers mem segments;
          compressedTurns = fst (priorityBasedCompression rt mem' maxTokens clock);
          originalTokens = countTokens rt conversationHistory;
          compressedTokens = countTokens rt compressedTurns
      in (\<lparr>compressed = compressedTurns,
            compressionRatio = quotientOf compressedTokens originalTokens,
            preservedConcepts = educationalConcepts mem',
            tokenCount = compressedTokens\<rparr>, mem'))"

text \<open>
  Stand-ins for the examples: a tokenizer that gives one token per four code
  units, as the token estimate of the router does, and the decimal form of a
  number that is not negative and has at most one decimal place.
\<close>

definition fourCharTokens :: "string \<Rightarrow> nat list" where
  "fourCharTokens text = replicate (estimateTokens text) 0"

definition oneDecimal :: "rat \<Rightarrow> string" where
  "oneDecimal q =
     showNat (nat \<lfloor>q\<rfloor>)
     @ (if q = of_int \<lfloor>q\<rfloor> then [] else ''.'' @ showNat (nat \<lfloor>10 * (q - of_int \<lfloor>q\<rfloor>)\<rfloor>))"

definition exampleRuntime :: Runtime where
  "exampleRuntime = \<lparr>encode = fourCharTokens, numberToJSON = oneDecimal\<rparr>"

text \<open>
  A second stand-in for the tokenizer, after the manner of a byte-pair tokenizer:
  the text is cut into pieces as the pre-tokenization pattern cuts it, and each
  piece counts one token. The alternatives of the pattern, in their order: a
  contraction (an apostrophe and \<open>s\<close>, \<open>t\<close>, \<open>re\<close>, \<open>ve\<close>, \<open>m\<close>, \<open>ll\<close> or \<open>d\<close>); a run of
  letters with at most one code unit before it that is no letter, number or line
  break; up to three numbers; a run of other marks with at most one space before
  it and the line breaks after it; white space up to its last line break; white
  space that ends the text, or all but the last code unit of white space before a
  piece; white space. The pieces of the texts of the example below (\<open>user\<close>, the
  colon, \<open>xx\<close> with the space before it, the line feed) are single tokens of the
  vocabulary, so that there the stand-in counts as the tokenizer does.
\<close>

definition isLetter :: "char \<Rightarrow> bool" where
  "isLetter c =
     (isUpperAscii c \<or> isLowerAscii c
      \<or> (of_char c :: nat) = 170 \<or> (of_char c :: nat) = 181 \<or> (of_char c :: nat) = 186
      \<or> (192 \<le> (of_char c :: nat) \<and> (of_char c :: nat) \<noteq> 215 \<and> (of_char c :: nat) \<noteq> 247))"

definition isNumber :: "char \<Rightarrow> bool" where
  "isNumber c =
     (isDigit c \<or> (of_char c :: nat) = 178 \<or> (of_char c :: nat) = 179 \<or> (of_char c :: nat) = 185
      \<or> (188 \<le> (of_char c :: nat) \<and> (of_char c :: nat) \<le> 190))"

definition isLineBreak :: "char \<Rightarrow> bool" where
  "isLineBreak c = (c = CHR 0x0A \<or> c = CHR 0x0D)"

definition isMark :: "char \<Rightarrow> bool" where
  "isMark c = (\<not> isSpace c \<and> \<not> isLetter c \<and> \<not> isNumber c)"

definition contractionLength :: "string \<Rightarrow> nat" where
  "contractionLength s =
     (case s of
        [] \<Rightarrow> 0
      | q # cs \<Rightarrow>
          if q \<noteq> CHR 0x27 then 0
          else (let one = map asciiLower (take 1 cs); two = map asciiLower (take 2 cs)
                in if one = ''s'' \<or> one = ''t'' then 2
                   else if two = ''re'' \<or> two = ''ve'' then 3
                   else if one = ''m'' then 2
                   else if two = ''ll'' then 3
                   else if one = ''d'' then 2
                   else 0))"

definition marksLength :: "string \<Rightarrow> nat" where
  "marksLength s =
     (let m = length (takeWhile isMark s) in m + length (takeWhile isLineBreak (drop m s)))"

definition spaceLength :: "string \<Rightarrow> nat" where
  "spaceLength s =
     (let w = length (takeWhile isSpace s);
          run = take w s
      in if list_ex isLineBreak run
         then w - length (takeWhile (\<lambda>c. \<not> isLineBreak c) (rev run))
         else if drop w s = [] then w
         else if w \<ge> 2 then w - 1
         else w)"

definition pieceLength :: "string \<Rightarrow> nat" where
  "pieceLength s =
     (if contractionLength s > 0 then contractionLength s
      else (case s of
              [] \<Rightarrow> 0
            | c # cs \<Rightarrow>
                if isLetter c then length (takeWhile isLetter s)
                else if \<not> isNumber c \<and> \<not> isLineBreak c \<and> (case cs of [] \<Rightarrow> False | d # ds \<Rightarrow> isLetter d)
                then 1 + length (takeWhile isLetter cs)
                else if isNumber c then min 3 (length (takeWhile isNumber s))
                else if isMark c then marksLength s
                else if c = CHR '' '' \<and> (case cs of [] \<Rightarrow> False | d # ds \<Rightarrow> isMark d)
                then 1 + marksLength cs
                else spaceLength s))"

fun countPieces :: "string \<Rightarrow> nat" where
  "countPieces [] = 0"
| "countPieces (c # cs) = Suc (countPieces (drop (pieceLength (c # cs) - 1) cs))"

definition pieceTokens :: "string \<Rightarrow> nat list" where
  "pieceTokens text = replicate (countPieces text) 0"

definition pieceRuntime :: Runtime where
  "pieceRuntime = \<lparr>encode = pieceTokens, numberToJSON = oneDecimal\<rparr>"

text \<open>
  Outcomes of the parser on example buffers: the failure at the end of
  \<open>function f() {\<close>, and the call expressions of two chains of calls, innermost
  call first, as the walk visits them.
\<close>

definition unexpectedEnd :: ParseFailure where
  "unexpectedEnd = \<lparr>failMessage = ''Unexpected token (1:14)'', failLine = Some 1, failColumn = Some 14\<rparr>"

definition bodyDivCalls :: "CallExpression list" where
  "bodyDivCalls =
     [\<lparr>calleeProperty = Some ''select'', firstArgValue = StringValue ''body'', startLine = Some 1\<rparr>,
      \<lparr>calleeProperty = Some ''append'', firstArgValue = StringValue ''div'', startLine = Some 1\<rparr>]"

definition labelledCalls :: "CallExpression list" where
  "labelledCalls =
     [\<lparr>calleeProperty = Some ''select'', firstArgValue = StringValue ''#visualization'', startLine = Some 1\<rparr>,
      \<lparr>calleeProperty = Some ''append'', firstArgValue = StringValue ''text'', startLine = Some 1\<rparr>,
      \<lparr>calleeProperty = Some ''text'', firstArgValue = StringValue ''T'', startLine = Some 1\<rparr>]"

text \<open>Example turns, and a clock that reads the same time throughout a call.\<close>

definition lengthTurn :: ConversationTurn where
  "lengthTurn = \<lparr>role = User, content = ''set length to 2m'', timestamp = 1, metadata = None\<rparr>"

definition lengthTurnLoud :: ConversationTurn where
  "lengthTurnLoud = \<lparr>role = User, content = ''Set length to 2m!'', timestamp = 2, metadata = None\<rparr>"

definition massTurn :: ConversationTurn where
  "massTurn = \<lparr>role = User, content = ''define mass as 1kg'', timestamp = 3, metadata = None\<rparr>"

definition shortTurn :: ConversationTurn where
  "shortTurn = \<lparr>role = User, content = ''xx'', timestamp = 1, metadata = None\<rparr>"

definition hiTurn :: ConversationTurn where
  "hiTurn = \<lparr>role = User, content = ''hi'', timestamp = 1, metadata = None\<rparr>"

definition clockAt :: "int \<Rightarrow> nat \<Rightarrow> int" where
  "clockAt t = (\<lambda>k. t)"

section \<open>Notions used in the proofs\<close>

text \<open>
  The language of a regular expression, against which the matcher is checked:
  \<open>star A\<close> holds the concatenations of any number of texts of \<open>A\<close>.
\<close>

inductive_set star :: "string set \<Rightarrow> string set" for A :: "string set" where
  star_empty: "[] \<in> star A"
| star_step: "u \<in> A \<Longrightarrow> v \<in> star A \<Longrightarrow> u @ v \<in> star A"

primrec lang :: "regex \<Rightarrow> string set" where
  "lang Never = {}"
| "lang Empty = {[]}"
| "lang (Lit w) = {w}"
| "lang (Cls p) = {[c] | c. p c}"
| "lang (Alt a b) = lang a \<union> lang b"
| "lang (Seq a b) = {u @ v | u v. u \<in> lang a \<and> v \<in> lang b}"
| "lang (Star a) = star (lang a)"

text \<open>A turn with its timestamp set to 0: what is left when the clock is ignored.\<close>

definition untimed :: "ConversationTurn \<Rightarrow> ConversationTurn" where
  "untimed t = t\<lparr>timestamp := 0\<rparr>"

text \<open>
  The invariant of the three loops of the assembly: the running sum is the sum of
  the token counts of the turns taken so far, each counted on its own, and it is
  within the budget.
\<close>

definition inBudget :: "Runtime \<Rightarrow> int \<Rightarrow> ConversationTurn list \<times> nat \<Rightarrow> bool" where
  "inBudget rt B acc =
     (snd acc = sum_list (map (\<lambda>t. countTokens rt [t]) (fst acc)) \<and> (of_nat (snd acc) :: rat) \<le> of_int B)"

text \<open>
  The memory already holds what the loop over the segments would store: the key
  decisions of every topic that has some, and every topic other than \<open>general\<close>.
\<close>

definition settled :: "MemoryLayer \<Rightarrow> (string \<times> ConversationTurn list) list \<Rightarrow> bool" where
  "settled mem segs =
     list_all (\<lambda>(topic, turns).
        (extractKeyDecisions turns = [] \<or> map_of (projectMemory mem) topic = Some (extractKeyDecisions turns))
        \<and> (topic = ''general'' \<or> topic \<in> set (educationalConcepts mem))) segs"

text \<open>The cache already holds the entry of every topic that lost a turn.\<close>

definition cached :: "(string \<times> string) list \<Rightarrow> (string \<times> ConversationTurn list) list \<Rightarrow> bool" where
  "cached cache segs =
     list_all (\<lambda>(topic, turns).
        length turns \<le> length (retainUnique content [] turns)
        \<or> map_of cache topic = Some (join [CHR 0x0A] (map content (retainUnique content [] turns)))) segs"

section \<open>Properties of the string functions and of the matcher\<close>

lemma startsWith_prefix: "startsWith s p = prefix p s"
  by (induction s p rule: startsWith.induct) auto

lemma str_includes_infix: "str_includes s p = (\<exists>u w. s = u @ p @ w)"
proof (induction s)
  case Nil
  then show ?case by auto
next
  case (Cons c cs)
  have "(\<exists>u w. c # cs = u @ p @ w) = (prefix p (c # cs) \<or> (\<exists>u w. cs = u @ p @ w))"
    (is "?L = (?A \<or> ?B)")
  proof
    assume ?L
    then obtain u w where s: "c # cs = u @ p @ w" by blast
    show "?A \<or> ?B"
    proof (cases u)
      case Nil
      with s show ?thesis by (auto simp add: prefix_def)
    next
      case (Cons a u')
      with s show ?thesis by auto
    qed
  next
    assume "?A \<or> ?B"
    then show ?L
    proof
      assume ?A
      then obtain w where "c # cs = [] @ p @ w" by (auto simp add: prefix_def)
      then show ?L by blast
    next
      assume ?B
      then obtain u w where "cs = u @ p @ w" by blast
      then have "c # cs = (c # u) @ p @ w" by simp
      then show ?L by blast
    qed
  qed
  note split = this
  have "str_includes (c # cs) p = (prefix p (c # cs) \<or> str_includes cs p)"
    by (simp only: str_includes.simps startsWith_prefix)
  also have "\<dots> = (?A \<or> ?B)"
    by (simp only: Cons.IH)
  also have "\<dots> = ?L"
    by (simp only: split)
  finally show ?case .
qed

text \<open>
  The matcher decides the language: a pattern between \<open>^\<close> and \<open>$\<close> matches the
  texts of its language, and \<open>test\<close> finds the texts that have a piece in it.
\<close>

lemma nullable_lang: "nullable r = ([] \<in> lang r)"
  by (induction r) (auto intro: star_empty)

lemma dead_lang: "dead r \<Longrightarrow> lang r = {}"
  by (induction r) auto

lemma star_Cons:
  "(c # w \<in> star A) = (\<exists>u v. w = u @ v \<and> c # u \<in> A \<and> v \<in> star A)"
proof
  assume "c # w \<in> star A"
  then show "\<exists>u v. w = u @ v \<and> c # u \<in> A \<and> v \<in> star A"
  proof (induction "c # w" rule: star.induct)
    case (star_step u v)
    show ?case
    proof (cases u)
      case Nil
      with star_step show ?thesis by simp
    next
      case (Cons a u')
      with star_step show ?thesis by auto
    qed
  qed
next
  assume "\<exists>u v. w = u @ v \<and> c # u \<in> A \<and> v \<in> star A"
  then obtain u v where "w = u @ v" "c # u \<in> A" "v \<in> star A" by blast
  then show "c # w \<in> star A"
    using star_step [of "c # u" A v] by simp
qed

lemma lang_deriv: "(w \<in> lang (deriv c r)) = (c # w \<in> lang r)"
proof (induction r arbitrary: w)
  case Never
  then show ?case by simp
next
  case Empty
  then show ?case by simp
next
  case (Lit x)
  then show ?case by (cases x) auto
next
  case (Cls p)
  then show ?case by auto
next
  case (Alt a b)
  then show ?case by (auto dest: dead_lang)
next
  case (Seq a b)
  have "(c # w \<in> lang (Seq a b))
          = ((\<exists>u v. w = u @ v \<and> c # u \<in> lang a \<and> v \<in> lang b) \<or> ([] \<in> lang a \<and> c # w \<in> lang b))"
    (is "?L = ?R")
  proof
    assume ?L
    then obtain u v where uv: "c # w = u @ v" "u \<in> lang a" "v \<in> lang b" by auto
    show ?R
    proof (cases u)
      case Nil
      with uv show ?thesis by simp
    next
      case (Cons x u')
      with uv have "w = u' @ v" "c # u' \<in> lang a" by simp_all
      with uv(3) show ?thesis by blast
    qed
  next
    assume ?R
    then show ?L
    proof
      assume "\<exists>u v. w = u @ v \<and> c # u \<in> lang a \<and> v \<in> lang b"
      then obtain u v where "w = u @ v" "c # u \<in> lang a" "v \<in> lang b" by blast
      then have "c # w = (c # u) @ v \<and> c # u \<in> lang a \<and> v \<in> lang b" by simp
      then show ?L by (simp only: lang.simps) blast
    next
      assume "[] \<in> lang a \<and> c # w \<in> lang b"
      then have "c # w = [] @ (c # w) \<and> [] \<in> lang a \<and> c # w \<in> lang b" by simp
      then show ?L by (simp only: lang.simps) blast
    qed
  qed
  moreover have "(w \<in> lang (deriv c (Seq a b)))
          = ((\<exists>u v. w = u @ v \<and> u \<in> lang (deriv c a) \<and> v \<in> lang b)
             \<or> (nullable a \<and> w \<in> lang (deriv c b)))"
    by (auto dest: dead_lang)
  ultimately show ?case
    by (simp add: Seq.IH nullable_lang)
next
  case (Star a)
  have "(w \<in> lang (deriv c (Star a)))
          = (\<exists>u v. w = u @ v \<and> u \<in> lang (deriv c a) \<and> v \<in> star (lang a))"
    by (auto dest: dead_lang)
  then show ?case
    by (simp add: Star.IH star_Cons)
qed

lemma matchesWhole_lang: "matchesWhole r s = (s \<in> lang r)"
  by (induction s arbitrary: r) (auto simp add: nullable_lang lang_deriv dest: dead_lang)

lemma matchesPrefix_lang: "matchesPrefix r s = (\<exists>u v. s = u @ v \<and> u \<in> lang r)"
proof (induction s arbitrary: r)
  case Nil
  then show ?case by (simp add: nullable_lang)
next
  case (Cons c cs)
  have "(\<exists>u v. c # cs = u @ v \<and> u \<in> lang r)
          = ([] \<in> lang r \<or> (\<exists>u v. cs = u @ v \<and> c # u \<in> lang r))"
    by (auto simp add: Cons_eq_append_conv)
  then show ?case
    using Cons.IH [of "deriv c r"] by (auto simp add: nullable_lang lang_deriv dest: dead_lang)
qed

lemma regexTest_lang: "regexTest r s = (\<exists>u v w. s = u @ v @ w \<and> v \<in> lang r)"
proof (induction s)
  case Nil
  then show ?case by (simp add: nullable_lang)
next
  case (Cons c cs)
  have "(\<exists>u v w. c # cs = u @ v @ w \<and> v \<in> lang r)
          = ((\<exists>v w. c # cs = v @ w \<and> v \<in> lang r) \<or> (\<exists>u v w. cs = u @ v @ w \<and> v \<in> lang r))"
    (is "?L = (?A \<or> ?B)")
  proof
    assume ?L
    then obtain u v w where s: "c # cs = u @ v @ w" and v: "v \<in> lang r" by blast
    show "?A \<or> ?B"
    proof (cases u)
      case Nil
      with s v show ?thesis by auto
    next
      case (Cons a u')
      with s v show ?thesis by auto
    qed
  next
    assume "?A \<or> ?B"
    then show ?L
    proof
      assume ?A
      then obtain v w where "c # cs = [] @ v @ w" "v \<in> lang r" by auto
      then show ?L by blast
    next
      assume ?B
      then obtain u v w where "cs = u @ v @ w" "v \<in> lang r" by blast
      then have "c # cs = (c # u) @ v @ w" by simp
      with \<open>v \<in> lang r\<close> show ?L by blast
    qed
  qed
  note split = this
  have "regexTest r (c # cs) = (matchesPrefix r (c # cs) \<or> regexTest r cs)"
    by simp
  also have "\<dots> = (?A \<or> ?B)"
    by (simp only: matchesPrefix_lang Cons.IH)
  also have "\<dots> = ?L"
    by (simp only: split)
  finally show ?case .
qed

section \<open>Properties of the router\<close>

lemma getModel_Validation:
  "getModel Validation =
     Inr \<lparr>name = ''gpt-4'', provider = Openai, model = ''gpt-4'', costPerToken = 3 / 100,
          latency = 800, capabilities = {Scientific_validation, Complex_educational_concept}\<rparr>"
  by (simp add: getModel_def initializeModels_def)

text \<open>Every complexity score lies above every routing threshold.\<close>

lemma complexity_above_threshold: "taskComplexityScores t > routingThresholds g"
  by (cases t; cases g; simp add: taskComplexityScores_def routingThresholds_def)

text \<open>
  C6. For every task type, optimization goal, prompt and context, the routing
  decision names a model whose capability set contains the task type, or its
  reason says that a fallback occurred.
\<close>

theorem routeRequest_capable_or_fallback:
  "\<exists>d um'. routeRequest um t p c g = Inr (d, um')
     \<and> (t \<in> capabilities (decisionModel d) \<or> startsWith (reason d) ''Fallback'')"
  by (cases t; cases g;
      simp add: routeRequest_def taskComplexityScores_def routingThresholds_def getModel_def
        initializeModels_def findCapableModel_def Let_def)

text \<open>
  No name in the catalogue contains \<open>fast\<close> or \<open>validation\<close>, so the confidence of a
  catalogue model is 0.5, plus 0.3 when the model lists the task type, and nothing
  more.
\<close>

lemma calculateConfidence_catalogue:
  assumes "(k, m) \<in> set initializeModels"
  shows "calculateConfidence m t c = (if t \<in> capabilities m then 8 / 10 else 5 / 10)"
  using assms by (auto simp add: initializeModels_def calculateConfidence_def Let_def)

text \<open>
  C7, at the input of the claim. A scientific validation task is routed to the
  validation model, which lists the task type, and the confidence is 0.8: the
  alignment bonus is not added, for the name of the model is \<open>gpt-4\<close>.
\<close>

theorem routeRequest_scientific_validation_confidence:
  "\<exists>d um'. routeRequest um Scientific_validation p c g = Inr (d, um')
     \<and> name (decisionModel d) = ''gpt-4''
     \<and> Scientific_validation \<in> capabilities (decisionModel d)
     \<and> taskComplexityScores Scientific_validation = 9 / 10
     \<and> confidence d = 8 / 10"
  by (cases g;
      simp add: routeRequest_def taskComplexityScores_def routingThresholds_def getModel_def
        initializeModels_def calculateConfidence_def Let_def)

section \<open>Properties of the final validation\<close>

lemma performASTValidation_no_errors: "fst (performASTValidation parse code) = []"
  by (simp add: performASTValidation_def split: sum.splits)

text \<open>
  C8. A code buffer on which the syntax parse fails gives a result that is not
  valid and holds the one syntax error of the parser and nothing else: no warning,
  no suggestion, and both scores at their initial value 1.
\<close>

theorem validateComplete_syntax_failure:
  assumes "parse ImportExportEverywhere codeBuffer = Inl e"
  shows "validateComplete parse codeBuffer =
           \<lparr>isValid = False,
            errors = [\<lparr>errType = SyntaxT, severity = SevError, message = failMessage e,
                       line = failLine e, column = failColumn e, suggestion = None\<rparr>],
            warnings = [], suggestions = [],
            scientificAccuracy = Some 1, pedagogicalQuality = Some 1\<rparr>"
  using assms by (simp add: validateComplete_def checkSyntax_def)

theorem validateComplete_syntax_failure_witness:
  "throwing unexpectedEnd ImportExportEverywhere ''function f() {'' = Inl unexpectedEnd
   \<and> validateComplete (throwing unexpectedEnd) ''function f() {'' =
       \<lparr>isValid = False,
        errors = [\<lparr>errType = SyntaxT, severity = SevError, message = ''Unexpected token (1:14)'',
                   line = Some 1, column = Some 14, suggestion = None\<rparr>],
        warnings = [], suggestions = [],
        scientificAccuracy = Some 1, pedagogicalQuality = Some 1\<rparr>"
proof -
  have h: "throwing unexpectedEnd ImportExportEverywhere ''function f() {'' = Inl unexpectedEnd"
    by (simp add: throwing_def)
  show ?thesis
    using h validateComplete_syntax_failure
            [of "throwing unexpectedEnd" "''function f() {''" unexpectedEnd]
    by (simp add: unexpectedEnd_def)
qed

text \<open>
  C10. A code buffer that parses gives a valid result with an empty error list; the
  findings of the structural, educational, scientific and performance passes are
  its warnings and those of the educational and accessibility passes its
  suggestions.
\<close>

theorem validateComplete_parsed_is_valid:
  assumes "parse ImportExportEverywhere codeBuffer = Inr ast"
  shows "isValid (validateComplete parse codeBuffer)
     \<and> errors (validateComplete parse codeBuffer) = []
     \<and> warnings (validateComplete parse codeBuffer) =
         snd (performASTValidation parse codeBuffer) @ fst (checkEducationalQuality codeBuffer)
         @ fst (checkScientificAccuracy codeBuffer) @ checkPerformanceComplete codeBuffer
     \<and> suggestions (validateComplete parse codeBuffer) =
         fst (snd (checkEducationalQuality codeBuffer)) @ checkAccessibility codeBuffer"
  using assms
  by (simp add: validateComplete_def checkSyntax_def Let_def performASTValidation_no_errors)

theorem validateComplete_parsed_is_valid_witness:
  "returning labelledCalls ImportExportEverywhere ''d3.select('#visualization').append('text').text('T')''
     = Inr labelledCalls
   \<and> isValid (validateComplete (returning labelledCalls)
        ''d3.select('#visualization').append('text').text('T')'')
   \<and> errors (validateComplete (returning labelledCalls)
        ''d3.select('#visualization').append('text').text('T')'') = []"
proof -
  have h: "returning labelledCalls ImportExportEverywhere
             ''d3.select('#visualization').append('text').text('T')'' = Inr labelledCalls"
    by (simp add: returning_def)
  show ?thesis
    using h validateComplete_parsed_is_valid
            [of "returning labelledCalls" "''d3.select('#visualization').append('text').text('T')''"
                labelledCalls]
    by simp
qed

text \<open>
  C1, at the input of the claim. The buffer has no reference to the container
  \<open>#visualization\<close>. The finding is made with severity \<open>error\<close> and category
  \<open>educational\<close>, but it is put among the warnings: the error list is empty and the
  result is valid.
\<close>

theorem validateComplete_missing_container:
  "isValid (validateComplete (returning bodyDivCalls) ''d3.select('body').append('div')'')
   \<and> errors (validateComplete (returning bodyDivCalls) ''d3.select('body').append('div')'') = []
   \<and> hd (warnings (validateComplete (returning bodyDivCalls) ''d3.select('body').append('div')'')) =
       \<lparr>errType = EducationalT, severity = SevError,
        message = ''No #visualization container found'', line = None, column = None,
        suggestion = Some ''Ensure code targets the #visualization element''\<rparr>"
  by code_simp

text \<open>
  Whatever the parser does on a buffer, the error list of the final validation
  holds no entry of the educational category.
\<close>

lemma validateComplete_no_educational_error:
  "list_all (\<lambda>e. errType e = SyntaxT) (errors (validateComplete parse codeBuffer))"
  by (simp add: validateComplete_def checkSyntax_def Let_def performASTValidation_no_errors
      split: sum.splits)

section \<open>Properties of the redundancy compression\<close>

lemma splitAt_not_Nil: "splitAt sep piece s \<noteq> []"
  by (induction s arbitrary: piece) auto

lemma calculateSimilarity_self: "calculateSimilarity s s = 1"
proof -
  have "set (splitAt CHR '' '' [] s) \<noteq> {}"
    using splitAt_not_Nil by simp
  then have "card (set (splitAt CHR '' '' [] s)) \<noteq> 0"
    by simp
  moreover have "Set.filter (\<lambda>x. x \<in> set (splitAt CHR '' '' [] s)) (set (splitAt CHR '' '' [] s))
      = set (splitAt CHR '' '' [] s)"
    by auto
  ultimately show ?thesis
    by (simp add: calculateSimilarity_def Let_def)
qed

lemma calculateSimilarity_commute: "calculateSimilarity a b = calculateSimilarity b a"
proof -
  have "Set.filter (\<lambda>x. x \<in> B) A = Set.filter (\<lambda>x. x \<in> A) B" for A B :: "string set"
    by auto
  then show ?thesis
    by (simp add: calculateSimilarity_def Let_def Un_commute)
qed

lemma retainUnique_subset:
  "x \<in> set (retainUnique f U xs) \<Longrightarrow> x \<in> set xs"
  by (induction xs arbitrary: U) (auto simp add: Let_def split: if_splits)

lemma retainUnique_unlike_seen:
  "x \<in> set (retainUnique f U xs) \<Longrightarrow> u \<in> set U
     \<Longrightarrow> \<not> calculateSimilarity (simplifyContent (f x)) u > 85 / 100"
proof (induction xs arbitrary: U)
  case Nil
  then show ?case by simp
next
  case (Cons a xs)
  show ?case
  proof (cases "list_ex (\<lambda>existing. calculateSimilarity (simplifyContent (f a)) existing > 85 / 100) U")
    case True
    with Cons.prems have "x \<in> set (retainUnique f U xs)" by (simp add: Let_def)
    with Cons.IH Cons.prems(2) show ?thesis by blast
  next
    case False
    with Cons.prems have "x = a \<or> x \<in> set (retainUnique f (U @ [simplifyContent (f a)]) xs)"
      by (simp add: Let_def)
    then show ?thesis
    proof
      assume "x = a"
      with False Cons.prems(2) show ?thesis by (auto simp add: list_ex_iff)
    next
      assume "x \<in> set (retainUnique f (U @ [simplifyContent (f a)]) xs)"
      with Cons.IH [of "U @ [simplifyContent (f a)]"] Cons.prems(2) show ?thesis by simp
    qed
  qed
qed

text \<open>
  Of two different turns of the list that are both retained, the later is not
  similar to the earlier.
\<close>

lemma retainUnique_pairwise:
  assumes "distinct xs" and "i < j" and "j < length xs"
    and "xs ! i \<in> set (retainUnique f U xs)" and "xs ! j \<in> set (retainUnique f U xs)"
  shows "\<not> calculateSimilarity (simplifyContent (f (xs ! j))) (simplifyContent (f (xs ! i))) > 85 / 100"
  using assms
proof (induction xs arbitrary: U i j)
  case Nil
  then show ?case by simp
next
  case (Cons a xs)
  from Cons.prems obtain j' where j': "j = Suc j'" "j' < length xs"
    by (cases j) auto
  have aj: "(a # xs) ! j \<in> set xs" using j' by simp
  have dist: "distinct xs" "a \<notin> set xs" using Cons.prems(1) by auto
  show ?case
  proof (cases "list_ex (\<lambda>existing. calculateSimilarity (simplifyContent (f a)) existing > 85 / 100) U")
    case True
    then have R: "retainUnique f U (a # xs) = retainUnique f U xs" by (simp add: Let_def)
    have "i \<noteq> 0"
    proof
      assume "i = 0"
      with Cons.prems(4) R have "a \<in> set (retainUnique f U xs)" by simp
      then have "a \<in> set xs" by (rule retainUnique_subset)
      with dist show False by simp
    qed
    then obtain i' where i': "i = Suc i'" by (cases i) auto
    with Cons.prems j' R Cons.IH [of i' j' U] dist show ?thesis by simp
  next
    case False
    then have R: "retainUnique f U (a # xs) = a # retainUnique f (U @ [simplifyContent (f a)]) xs"
      by (simp add: Let_def)
    have jin: "xs ! j' \<in> set (retainUnique f (U @ [simplifyContent (f a)]) xs)"
      using Cons.prems(5) R j' aj dist by auto
    show ?thesis
    proof (cases i)
      case 0
      have "\<not> calculateSimilarity (simplifyContent (f (xs ! j'))) (simplifyContent (f a)) > 85 / 100"
        using retainUnique_unlike_seen [OF jin, of "simplifyContent (f a)"] by simp
      with 0 j' show ?thesis by simp
    next
      case (Suc i')
      have "xs ! i' \<in> set xs" using Suc Cons.prems(2) j' by simp
      then have iin: "xs ! i' \<in> set (retainUnique f (U @ [simplifyContent (f a)]) xs)"
        using Cons.prems(4) R Suc dist by auto
      from Cons.IH [OF dist(1) _ j'(2) iin jin] Suc j' Cons.prems(2) show ?thesis by simp
    qed
  qed
qed

text \<open>Tagging the turns with their positions does not change which are retained.\<close>

lemma retainUnique_enumerate:
  "map snd (retainUnique (\<lambda>p. f (snd p)) U (enumerate n xs)) = retainUnique f U xs"
  by (induction xs arbitrary: U n) (simp_all add: Let_def)

lemma retainUnique_all_seen:
  "(\<And>x. x \<in> set xs \<Longrightarrow> list_ex (\<lambda>existing. calculateSimilarity (simplifyContent (f x)) existing > 85 / 100) U)
     \<Longrightarrow> retainUnique f U xs = []"
  by (induction xs arbitrary: U) (simp_all add: Let_def)

lemma retainUnique_all_like_first:
  assumes "turns \<noteq> []"
    and "\<And>t. t \<in> set turns \<Longrightarrow>
           calculateSimilarity (simplifyContent (f t)) (simplifyContent (f (turns ! 0))) > 85 / 100"
  shows "retainUnique f [] turns = [turns ! 0]"
proof -
  from assms(1) obtain h rest where T: "turns = h # rest" by (cases turns) auto
  have "retainUnique f [simplifyContent (f h)] rest = []"
    using assms(2) T by (intro retainUnique_all_seen) simp
  then show ?thesis using T by (simp add: Let_def)
qed

lemma map_of_mapSet: "map_of (mapSet k v m) = (map_of m)(k \<mapsto> v)"
  by (induction m) auto

lemma segmentLoop_one_topic:
  "(\<And>t. t \<in> set H \<Longrightarrow> extractTopic t = T) \<Longrightarrow> segmentLoop [(T, acc)] H = [(T, acc @ H)]"
  by (induction H arbitrary: acc) (simp_all add: Let_def)

lemma segmentByTopics_one_topic:
  assumes "H \<noteq> []" and "\<And>t. t \<in> set H \<Longrightarrow> extractTopic t = T"
  shows "segmentByTopics H = [(T, H)]"
proof -
  from assms(1) obtain h rest where H: "H = h # rest" by (cases H) auto
  have "segmentLoop [] (h # rest) = segmentLoop [(T, [h])] rest"
    using assms(2) H by (simp add: Let_def)
  also have "\<dots> = [(T, [h] @ rest)]"
    using assms(2) H by (intro segmentLoop_one_topic) simp
  finally show ?thesis using H by (simp add: segmentByTopics_def)
qed

text \<open>
  C5. Within the turns of one topic, two turns at positions \<open>i < j\<close> whose
  simplified contents have a word-set similarity above 0.85 are not both retained
  by the redundancy compression (the turns are tagged with their positions, so that
  equal turns at different positions are told apart). In particular, when the
  history consists of 50 turns of one topic and each of them has a similarity above
  0.85 with the first, exactly the first turn is retained, and after the call the
  semantic cache holds an entry for the topic: the content of that turn.
\<close>

theorem redundancy_compression_similar_turns:
  "(i < j \<longrightarrow> j < length turns
      \<longrightarrow> calculateSimilarity (simplifyContent (content (turns ! i)))
            (simplifyContent (content (turns ! j))) > 85 / 100
      \<longrightarrow> \<not> ((i, turns ! i) \<in> set (retainUnique (\<lambda>p. content (snd p)) [] (enumerate 0 turns))
             \<and> (j, turns ! j) \<in> set (retainUnique (\<lambda>p. content (snd p)) [] (enumerate 0 turns))))
   \<and> map snd (retainUnique (\<lambda>p. content (snd p)) [] (enumerate 0 turns)) = retainUnique content [] turns
   \<and> (length turns = 50
      \<longrightarrow> list_all (\<lambda>t. extractTopic t = topic) turns
      \<longrightarrow> list_all (\<lambda>t. calculateSimilarity (simplifyContent (content t))
                          (simplifyContent (content (turns ! 0))) > 85 / 100) turns
      \<longrightarrow> retainUnique content [] turns = [turns ! 0]
          \<and> map_of (semanticCache (snd (compressContext rt mem turns B clock))) topic
              = Some (content (turns ! 0)))"
proof (intro conjI impI)
  assume ij: "i < j" "j < length turns"
    and sim: "calculateSimilarity (simplifyContent (content (turns ! i)))
            (simplifyContent (content (turns ! j))) > 85 / 100"
  let ?xs = "enumerate 0 turns"
  show "\<not> ((i, turns ! i) \<in> set (retainUnique (\<lambda>p. content (snd p)) [] ?xs)
          \<and> (j, turns ! j) \<in> set (retainUnique (\<lambda>p. content (snd p)) [] ?xs))"
  proof
    assume both: "(i, turns ! i) \<in> set (retainUnique (\<lambda>p. content (snd p)) [] ?xs)
          \<and> (j, turns ! j) \<in> set (retainUnique (\<lambda>p. content (snd p)) [] ?xs)"
    have ni: "?xs ! i = (i, turns ! i)" and nj: "?xs ! j = (j, turns ! j)"
      using ij by (simp_all add: nth_enumerate_eq)
    have "\<not> calculateSimilarity (simplifyContent (content (snd (?xs ! j))))
              (simplifyContent (content (snd (?xs ! i)))) > 85 / 100"
      using both ij ni nj
      by (intro retainUnique_pairwise [where U = "[]" and f = "\<lambda>p. content (snd p)"])
         (simp_all add: distinct_enumerate)
    with sim ni nj show False
      by (simp add: calculateSimilarity_commute)
  qed
next
  show "map snd (retainUnique (\<lambda>p. content (snd p)) [] (enumerate 0 turns)) = retainUnique content [] turns"
    by (rule retainUnique_enumerate)
next
  assume len: "length turns = 50"
    and like: "list_all (\<lambda>t. calculateSimilarity (simplifyContent (content t))
                          (simplifyContent (content (turns ! 0))) > 85 / 100) turns"
  from len have ne: "turns \<noteq> []" by auto
  show "retainUnique content [] turns = [turns ! 0]"
    using ne like by (intro retainUnique_all_like_first) (simp_all add: list_all_iff)
next
  assume len: "length turns = 50"
    and top: "list_all (\<lambda>t. extractTopic t = topic) turns"
    and like: "list_all (\<lambda>t. calculateSimilarity (simplifyContent (content t))
                          (simplifyContent (content (turns ! 0))) > 85 / 100) turns"
  from len have ne: "turns \<noteq> []" by auto
  have kept: "retainUnique content [] turns = [turns ! 0]"
    using ne like by (intro retainUnique_all_like_first) (simp_all add: list_all_iff)
  have segs: "segmentByTopics turns = [(topic, turns)]"
    using ne top by (intro segmentByTopics_one_topic) (simp_all add: list_all_iff)
  show "map_of (semanticCache (snd (compressContext rt mem turns B clock))) topic
          = Some (content (turns ! 0))"
    using len by (simp add: compressContext_def updateMemoryLayers_def cacheTopic_def Let_def segs kept map_of_mapSet)
qed

lemma alternating_nth: "concat (replicate 25 [lengthTurn, lengthTurnLoud]) ! 0 = lengthTurn"
    "concat (replicate 25 [lengthTurn, lengthTurnLoud]) ! 1 = lengthTurnLoud"
    "concat (replicate 25 [lengthTurn, lengthTurnLoud]) ! Suc 0 = lengthTurnLoud"
  by code_simp+

lemma alternating_set: "set (concat (replicate 25 [lengthTurn, lengthTurnLoud])) = {lengthTurn, lengthTurnLoud}"
  by (auto simp add: numeral_eq_Suc)

lemma lengthTurn_facts:
  "extractTopic lengthTurn = ''general''" "extractTopic lengthTurnLoud = ''general''"
  "simplifyContent (content lengthTurnLoud) = simplifyContent (content lengthTurn)"
  "content lengthTurn = ''set length to 2m''"
  by code_simp+

theorem redundancy_compression_similar_turns_witness:
  "(0::nat) < 1 \<and> 1 < length (concat (replicate 25 [lengthTurn, lengthTurnLoud]))
   \<and> calculateSimilarity (simplifyContent (content lengthTurn)) (simplifyContent (content lengthTurnLoud)) > 85 / 100
   \<and> \<not> ((0, lengthTurn) \<in> set (retainUnique (\<lambda>p. content (snd p)) []
               (enumerate 0 (concat (replicate 25 [lengthTurn, lengthTurnLoud]))))
        \<and> (1, lengthTurnLoud) \<in> set (retainUnique (\<lambda>p. content (snd p)) []
               (enumerate 0 (concat (replicate 25 [lengthTurn, lengthTurnLoud])))))
   \<and> length (concat (replicate 25 [lengthTurn, lengthTurnLoud])) = 50
   \<and> list_all (\<lambda>t. extractTopic t = ''general'') (concat (replicate 25 [lengthTurn, lengthTurnLoud]))
   \<and> retainUnique content [] (concat (replicate 25 [lengthTurn, lengthTurnLoud])) = [lengthTurn]
   \<and> map_of (semanticCache (snd (compressContext exampleRuntime initialMemory
               (concat (replicate 25 [lengthTurn, lengthTurnLoud])) 8000 (clockAt 0)))) ''general''
       = Some ''set length to 2m''"
proof -
  let ?turns = "concat (replicate 25 [lengthTurn, lengthTurnLoud])"
  have len: "length ?turns = 50" by (simp add: length_concat sum_list_replicate)
  have sim: "calculateSimilarity (simplifyContent (content lengthTurn)) (simplifyContent (content lengthTurnLoud)) > 85 / 100"
    by (simp add: lengthTurn_facts calculateSimilarity_self)
  have top: "list_all (\<lambda>t. extractTopic t = ''general'') ?turns"
    by (simp add: list_all_iff alternating_set lengthTurn_facts)
  have like: "list_all (\<lambda>t. calculateSimilarity (simplifyContent (content t))
                          (simplifyContent (content (?turns ! 0))) > 85 / 100) ?turns"
    by (simp add: list_all_iff alternating_set alternating_nth lengthTurn_facts(3) calculateSimilarity_self)
  show ?thesis
    using redundancy_compression_similar_turns
            [of 0 1 ?turns "''general''" exampleRuntime initialMemory 8000 "clockAt 0"]
          len sim top like
    by (simp add: alternating_nth lengthTurn_facts(4))
qed

section \<open>Properties of the memory layers\<close>

subsection \<open>Maps in insertion order\<close>

lemma keys_mapSet:
  "map fst (mapSet k v m) = (if k \<in> set (map fst m) then map fst m else map fst m @ [k])"
  by (induction m) force+

lemma distinct_keys_mapSet: "distinct (map fst m) \<Longrightarrow> distinct (map fst (mapSet k v m))"
  by (simp add: keys_mapSet)

lemma mapSet_same: "map_of m k = Some v \<Longrightarrow> mapSet k v m = m"
  by (induction m) (auto split: if_splits)

lemma prefix_keys_mapSet: "prefix (map fst m) (map fst (mapSet k v m))"
  by (simp add: keys_mapSet)

lemma setAdd_member: "x \<in> set xs \<Longrightarrow> setAdd x xs = xs"
  by (simp add: setAdd_def)

lemma set_setAdd: "set (setAdd x xs) = insert x (set xs)"
  by (auto simp add: setAdd_def)

subsection \<open>Segmentation\<close>

text \<open>The segments have one entry for each topic.\<close>

lemma distinct_keys_segmentLoop:
  "distinct (map fst segs) \<Longrightarrow> distinct (map fst (segmentLoop segs H))"
  by (induction H arbitrary: segs) (simp_all add: Let_def distinct_keys_mapSet)

lemma distinct_keys_segmentByTopics: "distinct (map fst (segmentByTopics H))"
  by (simp add: segmentByTopics_def distinct_keys_segmentLoop)

subsection \<open>The loop that stores key decisions\<close>

lemma rememberTopic_fields:
  "activeContext (rememberTopic mem topic turns) = activeContext mem"
  "semanticCache (rememberTopic mem topic turns) = semanticCache mem"
  "projectMemory (rememberTopic mem topic turns) =
     (if extractKeyDecisions turns \<noteq> []
      then mapSet topic (extractKeyDecisions turns) (projectMemory mem) else projectMemory mem)"
  "educationalConcepts (rememberTopic mem topic turns) =
     (if topic \<noteq> ''general'' then setAdd topic (educationalConcepts mem) else educationalConcepts mem)"
  by (simp_all add: rememberTopic_def Let_def)

lemma activeContext_storeDecisions: "activeContext (storeDecisions mem segs) = activeContext mem"
  by (induction mem segs rule: storeDecisions.induct) (simp_all add: rememberTopic_fields)

lemma semanticCache_storeDecisions: "semanticCache (storeDecisions mem segs) = semanticCache mem"
  by (induction mem segs rule: storeDecisions.induct) (simp_all add: rememberTopic_def Let_def)

lemma projectMemory_storeDecisions_other:
  "k \<notin> set (map fst segs)
     \<Longrightarrow> map_of (projectMemory (storeDecisions mem segs)) k = map_of (projectMemory mem) k"
  by (induction mem segs rule: storeDecisions.induct)
     (auto simp add: rememberTopic_fields map_of_mapSet)

lemma concepts_storeDecisions_mono:
  "x \<in> set (educationalConcepts mem) \<Longrightarrow> x \<in> set (educationalConcepts (storeDecisions mem segs))"
  by (induction mem segs rule: storeDecisions.induct)
     (auto simp add: rememberTopic_fields set_setAdd)

lemma prefix_keys_storeDecisions:
  "prefix (map fst (projectMemory mem)) (map fst (projectMemory (storeDecisions mem segs)))"
proof (induction mem segs rule: storeDecisions.induct)
  case (1 mem)
  then show ?case by simp
next
  case (2 mem topic turns segments)
  have "prefix (map fst (projectMemory mem)) (map fst (projectMemory (rememberTopic mem topic turns)))"
    by (simp add: rememberTopic_fields prefix_keys_mapSet)
  with "2.IH" show ?case
    by (auto intro: prefix_order.trans)
qed

lemma projectMemory_storeDecisions:
  assumes "distinct (map fst segs)"
  shows "map_of (projectMemory (storeDecisions mem segs)) k =
           (case map_of segs k of
              None \<Rightarrow> map_of (projectMemory mem) k
            | Some turns \<Rightarrow>
                if extractKeyDecisions turns \<noteq> [] then Some (extractKeyDecisions turns)
                else map_of (projectMemory mem) k)"
  using assms
proof (induction mem segs rule: storeDecisions.induct)
  case (1 mem)
  then show ?case by simp
next
  case (2 mem topic turns segments)
  from "2.prems" have d: "distinct (map fst segments)" and nin: "topic \<notin> set (map fst segments)"
    by auto
  show ?case
  proof (cases "k = topic")
    case True
    then show ?thesis
      using nin projectMemory_storeDecisions_other [of topic segments "rememberTopic mem topic turns"]
      by (simp add: rememberTopic_fields map_of_mapSet)
  next
    case False
    then have "map_of (projectMemory (rememberTopic mem topic turns)) k = map_of (projectMemory mem) k"
      by (simp add: rememberTopic_fields map_of_mapSet)
    with False show ?thesis
      using "2.IH" [OF d] by (simp split: option.splits)
  qed
qed

lemma rememberTopic_settled:
  assumes "extractKeyDecisions turns = [] \<or> map_of (projectMemory mem) topic = Some (extractKeyDecisions turns)"
    and "topic = ''general'' \<or> topic \<in> set (educationalConcepts mem)"
  shows "rememberTopic mem topic turns = mem"
  using assms by (auto simp add: rememberTopic_def Let_def mapSet_same setAdd_member)

lemma storeDecisions_settled: "settled mem segs \<Longrightarrow> storeDecisions mem segs = mem"
  by (induction mem segs rule: storeDecisions.induct)
     (simp_all add: settled_def rememberTopic_settled)

lemma concepts_storeDecisions:
  "(topic, turns) \<in> set segs
     \<Longrightarrow> topic = ''general'' \<or> topic \<in> set (educationalConcepts (storeDecisions mem segs))"
proof (induction mem segs rule: storeDecisions.induct)
  case (1 mem)
  then show ?case by simp
next
  case (2 mem t ts segments)
  from "2.prems" have "(topic = t \<and> turns = ts) \<or> (topic, turns) \<in> set segments" by simp
  then show ?case
  proof
    assume "topic = t \<and> turns = ts"
    then show ?thesis
      by (auto simp add: rememberTopic_fields set_setAdd intro!: concepts_storeDecisions_mono)
  next
    assume "(topic, turns) \<in> set segments"
    from "2.IH" [OF this] show ?thesis by simp
  qed
qed

lemma settled_storeDecisions:
  assumes "distinct (map fst segs)"
  shows "settled (storeDecisions mem segs) segs"
proof -
  have "(extractKeyDecisions turns = []
          \<or> map_of (projectMemory (storeDecisions mem segs)) topic = Some (extractKeyDecisions turns))"
    if "(topic, turns) \<in> set segs" for topic turns
  proof -
    from that assms have "map_of segs topic = Some turns" by simp
    then show ?thesis by (simp add: projectMemory_storeDecisions [OF assms])
  qed
  then show ?thesis
    using concepts_storeDecisions [of _ _ segs mem]
    by (auto simp add: settled_def list_all_iff)
qed

text \<open>
  C9, as the code has it. A call never removes a topic from the project memory and
  keeps the order of its topics. After the call, the entry of a topic is the list
  of key decisions extracted from the turns of that topic in the history of this
  call, when that list is not empty: it replaces what was stored, and is not merged
  with it. The entry of any other topic is what it was before the call.
\<close>

theorem projectMemory_after_compress:
  "prefix (map fst (projectMemory mem))
          (map fst (projectMemory (snd (compressContext rt mem history maxTokens clock))))
   \<and> map_of (projectMemory (snd (compressContext rt mem history maxTokens clock))) topic =
       (case map_of (segmentByTopics history) topic of
          None \<Rightarrow> map_of (projectMemory mem) topic
        | Some turns \<Rightarrow>
            if extractKeyDecisions turns \<noteq> [] then Some (extractKeyDecisions turns)
            else map_of (projectMemory mem) topic)"
proof -
  let ?segs = "segmentByTopics history"
  let ?m1 = "mem\<lparr>activeContext := drop (length (concat (map snd ?segs)) - MAX_ACTIVE_TURNS) (concat (map snd ?segs))\<rparr>"
  have pm: "projectMemory (snd (compressContext rt mem history maxTokens clock))
              = projectMemory (storeDecisions ?m1 ?segs)"
    by (simp add: compressContext_def updateMemoryLayers_def Let_def)
  have pm1: "projectMemory ?m1 = projectMemory mem"
    by simp
  have keys: "prefix (map fst (projectMemory ?m1)) (map fst (projectMemory (storeDecisions ?m1 ?segs)))"
    by (rule prefix_keys_storeDecisions)
  have entry: "map_of (projectMemory (storeDecisions ?m1 ?segs)) topic =
       (case map_of ?segs topic of
          None \<Rightarrow> map_of (projectMemory ?m1) topic
        | Some turns \<Rightarrow>
            if extractKeyDecisions turns \<noteq> [] then Some (extractKeyDecisions turns)
            else map_of (projectMemory ?m1) topic)"
    by (rule projectMemory_storeDecisions [OF distinct_keys_segmentByTopics])
  from keys entry show ?thesis
    unfolding pm pm1 by (rule conjI)
qed

text \<open>
  The claim C9 itself fails: a second call with another history replaces the key
  decision that the first call stored for the topic \<open>general\<close>.
\<close>

theorem projectMemory_counterexample:
  "projectMemory (snd (compressContext exampleRuntime initialMemory [lengthTurn] 8000 (clockAt 0)))
     = [(''general'', [\<lparr>decisionContent = ''set length to 2m'', decisionType = User,
                          decisionImportance = 8 / 10\<rparr>])]
   \<and> projectMemory (snd (compressContext exampleRuntime
        (snd (compressContext exampleRuntime initialMemory [lengthTurn] 8000 (clockAt 0)))
        [massTurn] 8000 (clockAt 0)))
     = [(''general'', [\<lparr>decisionContent = ''define mass as 1kg'', decisionType = User,
                          decisionImportance = 8 / 10\<rparr>])]"
  by code_simp

subsection \<open>The loop that fills the semantic cache\<close>

lemma compressRedundantInfo_cached: "cached cache segs \<Longrightarrow> compressRedundantInfo cache segs = cache"
  by (induction cache segs rule: compressRedundantInfo.induct)
     (auto simp add: cached_def cacheTopic_def Let_def mapSet_same)

lemma compressRedundantInfo_other:
  "k \<notin> set (map fst segs) \<Longrightarrow> map_of (compressRedundantInfo cache segs) k = map_of cache k"
  by (induction cache segs rule: compressRedundantInfo.induct)
     (auto simp add: cacheTopic_def Let_def map_of_mapSet)

lemma cached_compressRedundantInfo:
  "distinct (map fst segs) \<Longrightarrow> cached (compressRedundantInfo cache segs) segs"
proof (induction cache segs rule: compressRedundantInfo.induct)
  case (1 cache)
  then show ?case by (simp add: cached_def)
next
  case (2 cache topic turns segments)
  from "2.prems" have d: "distinct (map fst segments)" and nin: "topic \<notin> set (map fst segments)"
    by auto
  from "2.IH" [OF d] nin show ?case
    by (simp add: cached_def compressRedundantInfo_other cacheTopic_def Let_def map_of_mapSet)
qed

subsection \<open>Updating the memory layers twice\<close>

lemma updateMemoryLayers_twice:
  assumes "distinct (map fst segs)"
  shows "updateMemoryLayers (updateMemoryLayers mem segs) segs = updateMemoryLayers mem segs"
proof -
  let ?A = "drop (length (concat (map snd segs)) - MAX_ACTIVE_TURNS) (concat (map snd segs))"
  let ?m2 = "storeDecisions (mem\<lparr>activeContext := ?A\<rparr>) segs"
  let ?u = "?m2\<lparr>semanticCache := compressRedundantInfo (semanticCache ?m2) segs\<rparr>"
  have u: "updateMemoryLayers mem segs = ?u"
    by (simp add: updateMemoryLayers_def Let_def)
  have act: "?u\<lparr>activeContext := ?A\<rparr> = ?u"
    by (simp add: activeContext_storeDecisions)
  have "settled ?m2 segs" by (rule settled_storeDecisions [OF assms])
  then have "settled ?u segs" by (simp add: settled_def)
  then have st: "storeDecisions ?u segs = ?u" by (rule storeDecisions_settled)
  have ca: "compressRedundantInfo (semanticCache ?u) segs = semanticCache ?u"
    by (intro compressRedundantInfo_cached) (simp add: cached_compressRedundantInfo [OF assms])
  have "updateMemoryLayers ?u segs = ?u"
    unfolding updateMemoryLayers_def Let_def act st ca by simp
  with u show ?thesis by simp
qed

section \<open>Properties of the assembly under the budget\<close>

lemma addWithin_inBudget:
  "inBudget rt B acc \<Longrightarrow> limit \<le> of_int B \<Longrightarrow> inBudget rt B (addWithin rt limit turn acc)"
  by (cases acc) (simp add: inBudget_def addWithin_def Let_def)

lemma addActiveContext_inBudget:
  "inBudget rt B acc \<Longrightarrow> inBudget rt B (addActiveContext rt B turns acc)"
  by (induction rt B turns acc rule: addActiveContext.induct) (simp_all add: addWithin_inBudget)

lemma addKeyDecisions_inBudget:
  "inBudget rt B acc \<Longrightarrow> inBudget rt B (addKeyDecisions rt B clock k entries acc)"
  by (induction rt B clock k entries acc rule: addKeyDecisions.induct) (simp_all add: addWithin_inBudget)

lemma addSemanticCache_inBudget:
  "0 \<le> B \<Longrightarrow> inBudget rt B acc \<Longrightarrow> inBudget rt B (addSemanticCache rt B clock k entries acc)"
  by (induction rt B clock k entries acc rule: addSemanticCache.induct) (simp_all add: addWithin_inBudget)

lemma priorityBasedCompression_inBudget:
  assumes "0 \<le> B"
  shows "inBudget rt B (priorityBasedCompression rt mem B clock)"
  unfolding priorityBasedCompression_def Let_def
  using assms
  by (intro addSemanticCache_inBudget addKeyDecisions_inBudget addActiveContext_inBudget)
     (simp_all add: inBudget_def)

lemma per_turn_tokens_within:
  assumes "0 \<le> maxTokens"
  shows "int (sum_list (map (\<lambda>t. countTokens rt [t])
                (compressed (fst (compressContext rt mem history maxTokens clock))))) \<le> maxTokens"
proof -
  let ?p = "priorityBasedCompression rt (updateMemoryLayers mem (segmentByTopics history)) maxTokens clock"
  have "inBudget rt maxTokens ?p"
    by (rule priorityBasedCompression_inBudget [OF assms])
  then have "(of_nat (sum_list (map (\<lambda>t. countTokens rt [t]) (fst ?p))) :: rat) \<le> of_int maxTokens"
    by (simp add: inBudget_def)
  then have "(of_int (int (sum_list (map (\<lambda>t. countTokens rt [t]) (fst ?p)))) :: rat) \<le> of_int maxTokens"
    by simp
  then have "int (sum_list (map (\<lambda>t. countTokens rt [t]) (fst ?p))) \<le> maxTokens"
    by (simp only: of_int_le_iff)
  then show ?thesis
    by (simp add: compressContext_def Let_def)
qed

text \<open>
  C2, as the code has it. For a budget that is not negative, the token counts of
  the returned turns, each turn counted on its own as the loops count it, add up to
  at most the budget. The token count of the result is another number: the count
  of the text of all returned turns joined by line feeds.
\<close>

theorem compress_per_turn_tokens_within_budget:
  assumes "0 \<le> maxTokens"
  shows "int (sum_list (map (\<lambda>t. countTokens rt [t])
                (compressed (fst (compressContext rt mem history maxTokens clock))))) \<le> maxTokens"
  using assms by (rule per_turn_tokens_within)

theorem compress_per_turn_tokens_within_budget_witness:
  "(0 :: int) \<le> 20
   \<and> int (sum_list (map (\<lambda>t. countTokens exampleRuntime [t])
            (compressed (fst (compressContext exampleRuntime initialMemory (replicate 10 shortTurn) 20 (clockAt 0))))))
       \<le> 20"
  using compress_per_turn_tokens_within_budget
          [of 20 exampleRuntime initialMemory "replicate 10 shortTurn" "clockAt 0"]
  by simp

text \<open>
  What the token count of the result can exceed the running sum by: when the
  tokenizer spends at most one token on a line feed between two texts, the joined
  text of \<open>n\<close> turns counts at most \<open>n - 1\<close> tokens more than the turns counted one
  by one. The tokenizer of the examples is of this kind.
\<close>

lemma estimateTokens_div: "estimateTokens s = (length s + 3) div 4"
proof -
  have "\<lceil>(of_int (int (length s)) :: rat) / of_int 4\<rceil> = - (- int (length s) div 4)"
    by (rule ceiling_divide_eq_div)
  then have "\<lceil>(of_nat (length s) :: rat) / 4\<rceil> = - (- int (length s) div 4)"
    by simp
  moreover have "nat (- (- int (length s) div 4)) = (length s + 3) div 4"
    by linarith
  ultimately show ?thesis by (simp add: estimateTokens_def)
qed

lemma countTokens_join_bound:
  assumes sub: "\<And>a b. length (encode rt (a @ [CHR 0x0A] @ b)) \<le> length (encode rt a) + 1 + length (encode rt b)"
  shows "turns \<noteq> [] \<Longrightarrow>
           countTokens rt turns + 1 \<le> sum_list (map (\<lambda>t. countTokens rt [t]) turns) + length turns"
proof (induction turns rule: induct_list012)
  case 1
  then show ?case by simp
next
  case (2 t)
  then show ?case by simp
next
  case (3 t t' ts)
  let ?line = "\<lambda>t. roleName (role t) @ '': '' @ content t"
  have "countTokens rt (t # t' # ts)
          = length (encode rt (?line t @ [CHR 0x0A] @ join [CHR 0x0A] (map ?line (t' # ts))))"
    by (simp add: countTokens_def)
  also have "\<dots> \<le> countTokens rt [t] + 1 + countTokens rt (t' # ts)"
    using sub [of "?line t" "join [CHR 0x0A] (map ?line (t' # ts))"] by (simp add: countTokens_def)
  finally show ?case using "3.IH"(2) by simp
qed

lemma fourCharTokens_join:
  "length (fourCharTokens (a @ [CHR 0x0A] @ b)) \<le> length (fourCharTokens a) + 1 + length (fourCharTokens b)"
  by (simp add: fourCharTokens_def estimateTokens_div)

lemma compress_tokenCount_joined:
  assumes "0 \<le> maxTokens"
    and "\<And>a b. length (encode rt (a @ [CHR 0x0A] @ b)) \<le> length (encode rt a) + 1 + length (encode rt b)"
    and "compressed (fst (compressContext rt mem history maxTokens clock)) \<noteq> []"
  shows "int (tokenCount (fst (compressContext rt mem history maxTokens clock))) + 1
           \<le> maxTokens + int (length (compressed (fst (compressContext rt mem history maxTokens clock))))"
proof -
  let ?out = "compressed (fst (compressContext rt mem history maxTokens clock))"
  have "countTokens rt ?out + 1 \<le> sum_list (map (\<lambda>t. countTokens rt [t]) ?out) + length ?out"
    using assms(2,3) by (rule countTokens_join_bound)
  moreover have "int (sum_list (map (\<lambda>t. countTokens rt [t]) ?out)) \<le> maxTokens"
    using assms(1) by (rule per_turn_tokens_within)
  moreover have "tokenCount (fst (compressContext rt mem history maxTokens clock)) = countTokens rt ?out"
    by (simp add: compressContext_def Let_def)
  ultimately show ?thesis by linarith
qed

lemma shortTurn_pieces: "countTokens pieceRuntime [shortTurn] = 3"
  by code_simp

lemma shortTurns_compressed:
  "compressContext pieceRuntime initialMemory (replicate 10 shortTurn) 30 (clockAt 0) =
     (\<lparr>compressed = replicate 10 shortTurn, compressionRatio = Finite 1,
        preservedConcepts = [], tokenCount = 39\<rparr>,
      \<lparr>activeContext = replicate 10 shortTurn, projectMemory = [],
        semanticCache = [(''general'', ''xx'')], educationalConcepts = []\<rparr>)"
  by code_simp

text \<open>
  The claim C2 itself fails. Each of ten turns \<open>user: xx\<close> counts three tokens, so
  all ten fit the budget 30 exactly and are returned. Joined by nine line feeds,
  each a token, they count 39 tokens: more than the budget plus the three tokens
  of any turn of the active context.
\<close>

theorem compress_tokenCount_counterexample:
  "map (\<lambda>t. countTokens pieceRuntime [t])
         (activeContext (snd (compressContext pieceRuntime initialMemory (replicate 10 shortTurn) 30 (clockAt 0))))
       = replicate 10 3
   \<and> compressed (fst (compressContext pieceRuntime initialMemory (replicate 10 shortTurn) 30 (clockAt 0)))
       = replicate 10 shortTurn
   \<and> tokenCount (fst (compressContext pieceRuntime initialMemory (replicate 10 shortTurn) 30 (clockAt 0))) = 39
   \<and> \<not> list_ex (\<lambda>t. int (tokenCount (fst (compressContext pieceRuntime initialMemory
                                  (replicate 10 shortTurn) 30 (clockAt 0))))
                     \<le> 30 + int (countTokens pieceRuntime [t]))
         (activeContext (snd (compressContext pieceRuntime initialMemory (replicate 10 shortTurn) 30 (clockAt 0))))"
  by (simp add: shortTurns_compressed shortTurn_pieces list_ex_iff)

section \<open>Properties of repeated calls\<close>

lemma countTokens_untimed: "countTokens rt (map untimed turns) = countTokens rt turns"
  by (simp add: countTokens_def untimed_def comp_def)

lemma countTokens_cong_untimed:
  "map untimed xs = map untimed ys \<Longrightarrow> countTokens rt xs = countTokens rt ys"
  by (metis countTokens_untimed)

lemma addWithin_untimed:
  assumes "untimed t = untimed t'" and "map untimed (fst acc) = map untimed (fst acc')" and "snd acc = snd acc'"
  shows "map untimed (fst (addWithin rt limit t acc)) = map untimed (fst (addWithin rt limit t' acc'))
       \<and> snd (addWithin rt limit t acc) = snd (addWithin rt limit t' acc')"
proof -
  have "countTokens rt [t] = countTokens rt [t']"
    using assms(1) by (intro countTokens_cong_untimed) simp
  with assms show ?thesis
    by (cases acc; cases acc') (simp add: addWithin_def Let_def)
qed

lemma addKeyDecisions_untimed:
  "map untimed (fst acc) = map untimed (fst acc') \<and> snd acc = snd acc'
   \<Longrightarrow> map untimed (fst (addKeyDecisions rt B c1 k entries acc))
         = map untimed (fst (addKeyDecisions rt B c2 k entries acc'))
       \<and> snd (addKeyDecisions rt B c1 k entries acc) = snd (addKeyDecisions rt B c2 k entries acc')"
proof (induction rt B c1 k entries acc arbitrary: acc' rule: addKeyDecisions.induct)
  case (1 rt maxTokens clock k acc)
  then show ?case by simp
next
  case (2 rt maxTokens clock k topic decisions entries acc)
  have "untimed (summaryTurn rt (clock k) topic decisions) = untimed (summaryTurn rt (c2 k) topic decisions)"
    by (simp add: untimed_def summaryTurn_def)
  from addWithin_untimed [OF this] "2.prems" "2.IH" show ?case
    by simp
qed

lemma addSemanticCache_untimed:
  "map untimed (fst acc) = map untimed (fst acc') \<and> snd acc = snd acc'
   \<Longrightarrow> map untimed (fst (addSemanticCache rt B c1 k entries acc))
         = map untimed (fst (addSemanticCache rt B c2 k entries acc'))
       \<and> snd (addSemanticCache rt B c1 k entries acc) = snd (addSemanticCache rt B c2 k entries acc')"
proof (induction rt B c1 k entries acc arbitrary: acc' rule: addSemanticCache.induct)
  case (1 rt maxTokens clock k acc)
  then show ?case by simp
next
  case (2 rt maxTokens clock k topic cachedContent entries acc)
  have "untimed (cacheTurn (clock k) topic cachedContent) = untimed (cacheTurn (c2 k) topic cachedContent)"
    by (simp add: untimed_def cacheTurn_def)
  from addWithin_untimed [OF this] "2.prems" "2.IH" show ?case
    by simp
qed

lemma priorityBasedCompression_untimed:
  "map untimed (fst (priorityBasedCompression rt mem B c1))
     = map untimed (fst (priorityBasedCompression rt mem B c2))"
  unfolding priorityBasedCompression_def Let_def
  by (intro conjunct1 [OF addSemanticCache_untimed] addKeyDecisions_untimed) simp

text \<open>
  A second call with the same history and budget behaves as the first call would
  have under the clock of the second.
\<close>

lemma compressContext_twice:
  "compressContext rt (snd (compressContext rt mem history maxTokens c1)) history maxTokens c2
     = compressContext rt mem history maxTokens c2"
  by (simp add: compressContext_def Let_def updateMemoryLayers_twice distinct_keys_segmentByTopics)

text \<open>
  C3, as the code has it. A second call on the same engine with the same history
  and budget leaves the memory layers as the first call left them. Under the same
  clock readings its result is the result of the first call. Under any clock
  readings its compressed turns are those of the first call up to their
  timestamps, and the compression ratio, the preserved topics and the token count
  are those of the first call.
\<close>

theorem compress_repeated:
  "snd (compressContext rt (snd (compressContext rt mem history maxTokens c1)) history maxTokens c2)
     = snd (compressContext rt mem history maxTokens c1)
   \<and> fst (compressContext rt (snd (compressContext rt mem history maxTokens c1)) history maxTokens c1)
     = fst (compressContext rt mem history maxTokens c1)
   \<and> map untimed (compressed (fst (compressContext rt (snd (compressContext rt mem history maxTokens c1))
                                      history maxTokens c2)))
     = map untimed (compressed (fst (compressContext rt mem history maxTokens c1)))
   \<and> compressionRatio (fst (compressContext rt (snd (compressContext rt mem history maxTokens c1))
                                      history maxTokens c2))
     = compressionRatio (fst (compressContext rt mem history maxTokens c1))
   \<and> preservedConcepts (fst (compressContext rt (snd (compressContext rt mem history maxTokens c1))
                                      history maxTokens c2))
     = preservedConcepts (fst (compressContext rt mem history maxTokens c1))
   \<and> tokenCount (fst (compressContext rt (snd (compressContext rt mem history maxTokens c1))
                                      history maxTokens c2))
     = tokenCount (fst (compressContext rt mem history maxTokens c1))"
proof -
  let ?u = "updateMemoryLayers mem (segmentByTopics history)"
  have tok: "countTokens rt (fst (priorityBasedCompression rt ?u maxTokens c2))
               = countTokens rt (fst (priorityBasedCompression rt ?u maxTokens c1))"
    by (intro countTokens_cong_untimed priorityBasedCompression_untimed)
  show ?thesis
    unfolding compressContext_twice
    using tok priorityBasedCompression_untimed [of rt ?u maxTokens c2 c1]
    by (simp add: compressContext_def Let_def)
qed

text \<open>
  The claim C3 itself fails: a summary turn carries the clock reading of the call
  that made it, so the compressed turns of two calls at different times differ.
\<close>

lemma timestamps_first:
  "map timestamp (compressed (fst (compressContext exampleRuntime initialMemory [lengthTurn] 8000 (clockAt 1000))))
     = [1, 1000]"
  by code_simp

lemma timestamps_second:
  "map timestamp (compressed (fst (compressContext exampleRuntime
       (snd (compressContext exampleRuntime initialMemory [lengthTurn] 8000 (clockAt 1000)))
       [lengthTurn] 8000 (clockAt 2000))))
     = [1, 2000]"
  by code_simp

theorem compress_repeated_counterexample:
  "compressed (fst (compressContext exampleRuntime
       (snd (compressContext exampleRuntime initialMemory [lengthTurn] 8000 (clockAt 1000)))
       [lengthTurn] 8000 (clockAt 2000)))
   \<noteq> compressed (fst (compressContext exampleRuntime initialMemory [lengthTurn] 8000 (clockAt 1000)))"
proof
  assume "compressed (fst (compressContext exampleRuntime
       (snd (compressContext exampleRuntime initialMemory [lengthTurn] 8000 (clockAt 1000)))
       [lengthTurn] 8000 (clockAt 2000)))
   = compressed (fst (compressContext exampleRuntime initialMemory [lengthTurn] 8000 (clockAt 1000)))"
  then have "[1, 2000] = [1, 1000 :: int]"
    using timestamps_first timestamps_second by simp
  then show False by simp
qed

section \<open>Properties of the compression ratio\<close>

text \<open>
  C4, as the code has it. For a history whose token count is positive, the
  compression ratio is the finite quotient of the token count of the result by
  that of the history. It is not negative, and it is 0 exactly when the token
  count of the result is 0.
\<close>

theorem compressionRatio_finite_nonneg:
  assumes "0 < countTokens rt history"
  shows "compressionRatio (fst (compressContext rt mem history maxTokens clock))
           = Finite (of_nat (tokenCount (fst (compressContext rt mem history maxTokens clock)))
                     / of_nat (countTokens rt history))
       \<and> (0 :: rat) \<le> of_nat (tokenCount (fst (compressContext rt mem history maxTokens clock)))
                     / of_nat (countTokens rt history)
       \<and> ((of_nat (tokenCount (fst (compressContext rt mem history maxTokens clock)))
                     / of_nat (countTokens rt history) = (0 :: rat))
           = (tokenCount (fst (compressContext rt mem history maxTokens clock)) = 0))"
  using assms by (simp add: compressContext_def Let_def quotientOf_def)

theorem compressionRatio_finite_nonneg_witness:
  "0 < countTokens exampleRuntime [hiTurn]
   \<and> compressionRatio (fst (compressContext exampleRuntime initialMemory [hiTurn] 8000 (clockAt 0)))
       = Finite 1"
proof -
  have h: "0 < countTokens exampleRuntime [hiTurn]" by code_simp
  have t: "tokenCount (fst (compressContext exampleRuntime initialMemory [hiTurn] 8000 (clockAt 0))) = 2"
    by code_simp
  have o: "countTokens exampleRuntime [hiTurn] = 2" by code_simp
  show ?thesis
    using h compressionRatio_finite_nonneg [OF h, of initialMemory 8000 "clockAt 0"]
    by (simp add: t o)
qed

text \<open>
  The claim C4 itself fails at both ends. With the budget 0 no turn is taken and
  the ratio is 0; with a large budget the summary turn of a key decision is added
  to the only turn of the history and the ratio is above 1.
\<close>

theorem compressionRatio_counterexample:
  "[hiTurn] \<noteq> [] \<and> countTokens exampleRuntime [hiTurn] = 2
   \<and> compressionRatio (fst (compressContext exampleRuntime initialMemory [hiTurn] 0 (clockAt 0))) = Finite 0
   \<and> [lengthTurn] \<noteq> [] \<and> countTokens exampleRuntime [lengthTurn] = 6
   \<and> compressionRatio (fst (compressContext exampleRuntime initialMemory [lengthTurn] 8000 (clockAt 0)))
       = Finite (29 / 6)"
  by code_simp

end
